theory Spec2Isabelle
  imports Complex_Main
begin

section \<open>Python values and helpers\<close>

text \<open>
  Strings are lists of 8-bit characters. The regular expression \<open>[^0-9]\<close> of the source
  removes every character that is not one of the ten ASCII digits, so \<open>is_digit\<close> is the
  test for the characters that are kept.
\<close>

definition is_digit :: "char \<Rightarrow> bool" where
  "is_digit c = (48 \<le> (of_char c :: nat) \<and> (of_char c :: nat) \<le> 57)"

text \<open>\<open>int(c)\<close> for a one-character string holding an ASCII digit.\<close>

definition int_of_digit :: "char \<Rightarrow> int" where
  "int_of_digit c = int (of_char c) - 48"

section \<open>Document helpers (\<open>clean_document\<close>, \<open>validate_cpf\<close>)\<close>

text \<open>
  \<open>clean_document(document)\<close>: the empty string for a falsy argument, otherwise the
  argument with every non-digit removed.
\<close>

definition clean_document :: "string \<Rightarrow> string" where
  "clean_document document = (if document = [] then [] else filter is_digit document)"

text \<open>
  \<open>validate_cpf(cpf)\<close>, branch by branch as in the source. Python's integers are
  unbounded, hence \<open>int\<close>. \<open>range(9)\<close> is \<open>[0..<9]\<close>.
\<close>

definition validate_cpf :: "string \<Rightarrow> bool" where
  "validate_cpf cpf0 =
     (let cpf = clean_document cpf0 in
      if length cpf \<noteq> 11 then False
      else if cpf = replicate 11 (cpf ! 0) then False
      else
        let sum_dig1 = (\<Sum>i\<leftarrow>[0..<9]. int_of_digit (cpf ! i) * (10 - int i));
            dig1 = 11 - (sum_dig1 mod 11);
            dig1 = (if dig1 \<ge> 10 then 0 else dig1)
        in
        if dig1 \<noteq> int_of_digit (cpf ! 9) then False
        else
          let sum_dig2 = (\<Sum>i\<leftarrow>[0..<10]. int_of_digit (cpf ! i) * (11 - int i));
              dig2 = 11 - (sum_dig2 mod 11);
              dig2 = (if dig2 \<ge> 10 then 0 else dig2)
          in
          if dig2 \<noteq> int_of_digit (cpf ! 10) then False
          else True)"

text \<open>\<open>clean_zipcode(zipcode)\<close>.\<close>

definition clean_zipcode :: "string \<Rightarrow> string" where
  "clean_zipcode zipcode = (if zipcode = [] then [] else filter is_digit zipcode)"

subsection \<open>The CPF rule in the words of the specification\<close>

text \<open>
  The modulus-11 check digit of a digit sequence under a list of weights: the weighted sum,
  11 minus its remainder modulo 11, a value of 10 or more mapped to 0.
\<close>

definition spec_check_digit :: "int list \<Rightarrow> int list \<Rightarrow> int" where
  "spec_check_digit weights ds =
     (let v = 11 - (sum_list (map2 (*) weights ds)) mod 11 in if v \<ge> 10 then 0 else v)"

definition spec_all_same :: "int list \<Rightarrow> bool" where
  "spec_all_same ds = list_all (\<lambda>d. d = hd ds) ds"

text \<open>
  Exactly 11 digits after cleaning, not all one repeated digit, digit 1 from weights 10..2
  over the first 9 digits, digit 2 from weights 11..2 over the first 10.
\<close>

definition spec_cpf_valid :: "string \<Rightarrow> bool" where
  "spec_cpf_valid s =
     (let ds = map int_of_digit (filter is_digit s) in
      length ds = 11 \<and> \<not> spec_all_same ds \<and>
      ds ! 9 = spec_check_digit [10, 9, 8, 7, 6, 5, 4, 3, 2] (take 9 ds) \<and>
      ds ! 10 = spec_check_digit [11, 10, 9, 8, 7, 6, 5, 4, 3, 2] (take 10 ds))"


section \<open>Exceptions\<close>

text \<open>
  An exception: its class and the text \<open>str(e)\<close> gives. The texts of exceptions raised by
  library code are abbreviated.
\<close>

datatype exc = Exc (exc_type: string) (exc_msg: string)


section \<open>Python floats\<close>

text \<open>
  A Python \<open>float\<close> is an IEEE 754 binary64 value: a sign with a magnitude (zero, or
  \<open>n * 2 ^ k\<close> with \<open>0 < n < 2 ^ 53\<close> and \<open>-1074 \<le> k \<le> 971\<close>), an infinity, or
  not-a-number. \<open>FloatNum True 0\<close> is \<open>-0.0\<close>.
\<close>

datatype pyfloat = FloatNum bool rat | FloatInf bool | FloatNaN

text \<open>\<open>n.bit_length()\<close> for \<open>n \<ge> 0\<close>, and the powers of two.\<close>

function bit_length :: "int \<Rightarrow> int" where
  "bit_length n = (if n \<le> 0 then 0 else 1 + bit_length (n div 2))"
  by pat_completeness auto
termination
  by (relation "measure nat") auto

declare bit_length.simps [simp del]

definition pow2 :: "int \<Rightarrow> rat" where
  "pow2 k = (if k \<ge> 0 then of_int (2 ^ nat k) else Fract 1 (2 ^ nat (- k)))"

text \<open>The exponent \<open>e\<close> with \<open>2 ^ e \<le> m < 2 ^ (e + 1)\<close>, for \<open>m > 0\<close>.\<close>

definition ilog2 :: "rat \<Rightarrow> int" where
  "ilog2 m =
     (case quotient_of m of (p, q) \<Rightarrow>
        let e = bit_length p - bit_length q in
        if (if e \<ge> 0 then p < q * 2 ^ nat e else p * 2 ^ nat (- e) < q) then e - 1 else e)"

text \<open>The nearest integer, a tie going to the even one.\<close>

definition round_half_even :: "rat \<Rightarrow> int" where
  "round_half_even x =
     (let f = \<lfloor>x\<rfloor>; d = x - of_int f in
      if d < 1 / 2 then f else if 1 / 2 < d then f + 1 else if even f then f else f + 1)"

text \<open>
  Rounding of a magnitude to binary64, to nearest with ties to even: 53 significant bits,
  or a multiple of \<open>2 ^ -1074\<close> below \<open>2 ^ -1022\<close>. \<open>None\<close> when the rounded magnitude is
  \<open>2 ^ 1024\<close> or more.
\<close>

definition round_mag :: "rat \<Rightarrow> rat option" where
  "round_mag m =
     (if m = 0 then Some 0
      else
        let e = ilog2 m in
        if 1023 < e then None
        else
          let k = max e (- 1022) - 52;
              n = round_half_even (m / pow2 k)
          in if e = 1023 \<and> n = 9007199254740992 then None else Some (of_int n * pow2 k))"

text \<open>An arithmetic result: an overflow gives an infinity.\<close>

definition float_round :: "bool \<Rightarrow> rat \<Rightarrow> pyfloat" where
  "float_round neg m = (case round_mag m of None \<Rightarrow> FloatInf neg | Some r \<Rightarrow> FloatNum neg r)"

text \<open>The float a decimal literal of the source denotes, such as \<open>0.3\<close>.\<close>

definition float_lit :: "rat \<Rightarrow> pyfloat" where
  "float_lit r = float_round (r < 0) \<bar>r\<bar>"

text \<open>
  The conversion of an \<open>int\<close>, as \<open>float(n)\<close> and as the coercion of an \<open>int\<close> operand of
  \<open>*\<close>: an integer too large raises \<open>OverflowError\<close>.
\<close>

definition float_of_int :: "int \<Rightarrow> exc + pyfloat" where
  "float_of_int n =
     (case round_mag (of_int \<bar>n\<bar>) of
        None \<Rightarrow> Inl (Exc ''OverflowError'' ''int too large to convert to float'')
      | Some r \<Rightarrow> Inr (FloatNum (n < 0) r))"

definition float_val :: "bool \<Rightarrow> rat \<Rightarrow> rat" where
  "float_val neg m = (if neg then - m else m)"

text \<open>\<open>a * b\<close> and \<open>a + b\<close> on floats; neither raises.\<close>

fun fmul :: "pyfloat \<Rightarrow> pyfloat \<Rightarrow> pyfloat" where
  "fmul FloatNaN b = FloatNaN"
| "fmul (FloatInf s) FloatNaN = FloatNaN"
| "fmul (FloatNum s m) FloatNaN = FloatNaN"
| "fmul (FloatInf s) (FloatInf t) = FloatInf (s \<noteq> t)"
| "fmul (FloatInf s) (FloatNum t n) = (if n = 0 then FloatNaN else FloatInf (s \<noteq> t))"
| "fmul (FloatNum s m) (FloatInf t) = (if m = 0 then FloatNaN else FloatInf (s \<noteq> t))"
| "fmul (FloatNum s m) (FloatNum t n) = float_round (s \<noteq> t) (m * n)"

fun fadd :: "pyfloat \<Rightarrow> pyfloat \<Rightarrow> pyfloat" where
  "fadd FloatNaN b = FloatNaN"
| "fadd (FloatInf s) FloatNaN = FloatNaN"
| "fadd (FloatNum s m) FloatNaN = FloatNaN"
| "fadd (FloatInf s) (FloatInf t) = (if s = t then FloatInf s else FloatNaN)"
| "fadd (FloatInf s) (FloatNum t n) = FloatInf s"
| "fadd (FloatNum s m) (FloatInf t) = FloatInf t"
| "fadd (FloatNum s m) (FloatNum t n) =
     (let v = float_val s m + float_val t n in
      if v = 0 then FloatNum (s \<and> t) 0 else float_round (v < 0) \<bar>v\<bar>)"

text \<open>\<open>-a\<close> and \<open>abs(a)\<close>.\<close>

fun fneg :: "pyfloat \<Rightarrow> pyfloat" where
  "fneg FloatNaN = FloatNaN"
| "fneg (FloatInf s) = FloatInf (\<not> s)"
| "fneg (FloatNum s m) = FloatNum (\<not> s) m"

fun fabs :: "pyfloat \<Rightarrow> pyfloat" where
  "fabs FloatNaN = FloatNaN"
| "fabs (FloatInf s) = FloatInf False"
| "fabs (FloatNum s m) = FloatNum False m"

text \<open>\<open>a < b\<close>: false when either side is not-a-number; the two zeros are equal.\<close>

fun flt :: "pyfloat \<Rightarrow> pyfloat \<Rightarrow> bool" where
  "flt FloatNaN b = False"
| "flt (FloatInf s) FloatNaN = False"
| "flt (FloatNum s m) FloatNaN = False"
| "flt (FloatInf s) (FloatInf t) = (s \<and> \<not> t)"
| "flt (FloatInf s) (FloatNum t n) = s"
| "flt (FloatNum s m) (FloatInf t) = (\<not> t)"
| "flt (FloatNum s m) (FloatNum t n) = (float_val s m < float_val t n)"

text \<open>\<open>a == b\<close>.\<close>

fun feq :: "pyfloat \<Rightarrow> pyfloat \<Rightarrow> bool" where
  "feq (FloatNum s m) (FloatNum t n) = (float_val s m = float_val t n)"
| "feq (FloatInf s) (FloatInf t) = (s = t)"
| "feq a b = False"

text \<open>\<open>bool(a)\<close>: only the zeros are false.\<close>

fun float_truthy :: "pyfloat \<Rightarrow> bool" where
  "float_truthy (FloatNum s m) = (m \<noteq> 0)"
| "float_truthy a = True"

text \<open>
  \<open>max(a, b)\<close> of two arguments: the first, unless the second is greater. With
  not-a-number as the first argument no second argument is greater.
\<close>

definition py_max2 :: "pyfloat \<Rightarrow> pyfloat \<Rightarrow> pyfloat" where
  "py_max2 a b = (if flt a b then b else a)"


section \<open>Dynamic values and library functions\<close>

text \<open>
  The payloads of the storefront and of the carrier are JSON documents, handled in the
  source as untyped Python values. Python's parser also accepts the numbers \<open>NaN\<close>,
  \<open>Infinity\<close> and \<open>-Infinity\<close>.
\<close>

datatype json =
    JNull
  | JBool bool
  | JInt int
  | JFloat pyfloat
  | JStr string
  | JList "json list"
  | JDict "(string \<times> json) list"

text \<open>Python's truth value of an object (\<open>if x\<close>, \<open>x or y\<close>, \<open>not x\<close>).\<close>

fun truthy :: "json \<Rightarrow> bool" where
  "truthy JNull = False"
| "truthy (JBool b) = b"
| "truthy (JInt n) = (n \<noteq> 0)"
| "truthy (JFloat r) = float_truthy r"
| "truthy (JStr s) = (s \<noteq> [])"
| "truthy (JList xs) = (xs \<noteq> [])"
| "truthy (JDict kvs) = (kvs \<noteq> [])"

text \<open>\<open>a or b\<close>.\<close>

definition py_or :: "json \<Rightarrow> json \<Rightarrow> json" where
  "py_or a b = (if truthy a then a else b)"

text \<open>Sequencing of computations that may raise.\<close>

fun and_then :: "exc + 'a \<Rightarrow> ('a \<Rightarrow> exc + 'b) \<Rightarrow> exc + 'b" where
  "and_then (Inl e) f = Inl e"
| "and_then (Inr x) f = f x"

fun map_exc :: "('a \<Rightarrow> exc + 'b) \<Rightarrow> 'a list \<Rightarrow> exc + 'b list" where
  "map_exc f [] = Inr []"
| "map_exc f (x # xs) = and_then (f x) (\<lambda>y. and_then (map_exc f xs) (\<lambda>ys. Inr (y # ys)))"

text \<open>
  Library behaviour the program relies on but does not define: \<open>str()\<close> of floats and
  containers, \<open>float()\<close> and \<open>int()\<close> of a string, whether \<open>sum()\<close> compensates the rounding
  errors of float terms, and the text SQLite stores for a bound parameter that is neither a
  string nor \<open>None\<close> (\<open>None\<close> when the value cannot be bound).
\<close>

record pylib =
  str_other :: "json \<Rightarrow> string"
  float_of_str :: "string \<Rightarrow> pyfloat option"
  int_of_str :: "string \<Rightarrow> int option"
  compensated_sum :: bool
  sql_text :: "json \<Rightarrow> string option"

text \<open>
  \<open>sum(xs)\<close> of floats. The start value is the integer 0, which the first addition
  converts. Up to CPython 3.11 the terms are then added from the left; from 3.12 on the
  rounding errors of the partial sums are collected in a compensation term that is added
  at the end (Neumaier's algorithm), which can change the result for three or more terms.
  The empty sum, the integer 0, is given as \<open>0.0\<close>.
\<close>

fun compensated :: "pyfloat \<Rightarrow> pyfloat \<Rightarrow> pyfloat list \<Rightarrow> pyfloat" where
  "compensated f c [] =
     (if float_truthy c \<and> (case c of FloatNum s m \<Rightarrow> True | _ \<Rightarrow> False) then fadd f c else f)"
| "compensated f c (x # xs) =
     (let t = fadd f x;
          d = (if flt (fabs x) (fabs f) \<or> feq (fabs f) (fabs x)
               then fadd (fadd f (fneg t)) x
               else fadd (fadd x (fneg t)) f)
      in compensated t (fadd c d) xs)"

definition float_sum :: "pylib \<Rightarrow> pyfloat list \<Rightarrow> pyfloat" where
  "float_sum l xs =
     (case xs of
        [] \<Rightarrow> FloatNum False 0
      | x # rest \<Rightarrow>
          let first = fadd (FloatNum False 0) x in
          if compensated_sum l then compensated first (FloatNum False 0) rest
          else foldl fadd first rest)"

definition digit_char :: "nat \<Rightarrow> char" where
  "digit_char n = char_of (48 + n)"

function str_nat :: "nat \<Rightarrow> string" where
  "str_nat n = (if n < 10 then [digit_char n] else str_nat (n div 10) @ [digit_char (n mod 10)])"
  by pat_completeness auto
termination
  by (relation "measure (\<lambda>n. n)") auto

declare str_nat.simps [simp del]

definition str_int :: "int \<Rightarrow> string" where
  "str_int i = (if i < 0 then CHR ''-'' # str_nat (nat (- i)) else str_nat (nat i))"

text \<open>\<open>str(v)\<close>, also what an f-string interpolates.\<close>

definition py_str :: "pylib \<Rightarrow> json \<Rightarrow> string" where
  "py_str l v =
     (case v of
        JStr s \<Rightarrow> s
      | JNull \<Rightarrow> ''None''
      | JBool b \<Rightarrow> (if b then ''True'' else ''False'')
      | JInt n \<Rightarrow> str_int n
      | _ \<Rightarrow> str_other l v)"

text \<open>\<open>float(v)\<close>.\<close>

definition py_float :: "pylib \<Rightarrow> json \<Rightarrow> exc + pyfloat" where
  "py_float l v =
     (case v of
        JInt n \<Rightarrow> float_of_int n
      | JFloat r \<Rightarrow> Inr r
      | JBool b \<Rightarrow> Inr (FloatNum False (if b then 1 else 0))
      | JStr s \<Rightarrow> (case float_of_str l s of
                     Some r \<Rightarrow> Inr r
                   | None \<Rightarrow> Inl (Exc ''ValueError'' ''could not convert string to float''))
      | _ \<Rightarrow> Inl (Exc ''TypeError'' ''float() argument must be a string or a real number''))"

text \<open>
  \<open>int(x)\<close> for a float \<open>x\<close>: truncation towards zero; an infinity and not-a-number
  raise.
\<close>

definition float_trunc :: "pyfloat \<Rightarrow> exc + int" where
  "float_trunc x =
     (case x of
        FloatNum s m \<Rightarrow> Inr (if s then - \<lfloor>m\<rfloor> else \<lfloor>m\<rfloor>)
      | FloatInf s \<Rightarrow> Inl (Exc ''OverflowError'' ''cannot convert float infinity to integer'')
      | FloatNaN \<Rightarrow> Inl (Exc ''ValueError'' ''cannot convert float NaN to integer''))"

text \<open>\<open>int(v)\<close>.\<close>

definition py_int :: "pylib \<Rightarrow> json \<Rightarrow> exc + int" where
  "py_int l v =
     (case v of
        JInt n \<Rightarrow> Inr n
      | JFloat r \<Rightarrow> float_trunc r
      | JBool b \<Rightarrow> Inr (if b then 1 else 0)
      | JStr s \<Rightarrow> (case int_of_str l s of
                     Some n \<Rightarrow> Inr n
                   | None \<Rightarrow> Inl (Exc ''ValueError'' ''invalid literal for int()''))
      | _ \<Rightarrow> Inl (Exc ''TypeError'' ''int() argument must be a string or a real number''))"

text \<open>\<open>d.get(key, default)\<close>: only a dict has the method.\<close>

definition dict_get :: "json \<Rightarrow> string \<Rightarrow> json \<Rightarrow> exc + json" where
  "dict_get d k dflt =
     (case d of
        JDict kvs \<Rightarrow> Inr (case map_of kvs k of Some v \<Rightarrow> v | None \<Rightarrow> dflt)
      | _ \<Rightarrow> Inl (Exc ''AttributeError'' ''object has no attribute get''))"

text \<open>\<open>sub in s\<close> for two strings: \<open>sub\<close> occurs in \<open>s\<close> as a contiguous block.\<close>

fun py_in :: "string \<Rightarrow> string \<Rightarrow> bool" where
  "py_in sub [] = (sub = [])"
| "py_in sub (c # cs) = (take (length sub) (c # cs) = sub \<or> py_in sub cs)"

text \<open>\<open>s.lower()\<close> on ASCII letters; other characters are left as they are.\<close>

definition lower_char :: "char \<Rightarrow> char" where
  "lower_char c =
     (if 65 \<le> (of_char c :: nat) \<and> (of_char c :: nat) \<le> 90
      then char_of ((of_char c :: nat) + 32) else c)"

definition lower :: "string \<Rightarrow> string" where
  "lower s = map lower_char s"

text \<open>\<open>key in obj\<close> for a string key: dict membership, list membership, or substring.\<close>

definition py_contains :: "string \<Rightarrow> json \<Rightarrow> exc + bool" where
  "py_contains k obj =
     (case obj of
        JDict kvs \<Rightarrow> Inr (map_of kvs k \<noteq> None)
      | JList xs \<Rightarrow> Inr (JStr k \<in> set xs)
      | JStr s \<Rightarrow> Inr (py_in k s)
      | _ \<Rightarrow> Inl (Exc ''TypeError'' ''argument is not iterable''))"


section \<open>Configuration, HTTP and the world the program acts on\<close>

text \<open>The module-level settings read from the environment at start-up.\<close>

record config =
  BAGY_TOKEN :: "string option"
  MELHORENVIO_TOKEN :: "string option"
  BAGY_BASE :: string
  MELHORENVIO_BASE :: string
  SENDER_NAME :: string
  SENDER_PHONE :: string
  SENDER_EMAIL :: string
  SENDER_DOCUMENT :: string
  SENDER_ADDRESS :: string
  SENDER_COMPLEMENT :: string
  SENDER_NUMBER :: string
  SENDER_DISTRICT :: string
  SENDER_CITY :: string
  SENDER_STATE :: string
  SENDER_ZIPCODE :: string
  SERVICE_ID :: int
  TRACKER_INTERVAL :: int
  MAX_RETRIES :: int

text \<open>The carrier's shipment request (the \<open>payload\<close> dict of \<open>send_to_melhorenvio\<close>).\<close>

record party =
  p_name :: json
  p_phone :: json
  p_email :: json
  p_document :: json
  p_address :: json
  p_complement :: json
  p_number :: json
  p_district :: json
  p_city :: json
  p_state_abbr :: json
  p_postal_code :: json

record product =
  prod_name :: string
  prod_quantity :: int
  unitary_value :: pyfloat

record volume =
  vol_height :: int
  vol_width :: int
  vol_length :: int
  vol_weight :: pyfloat

record ship_options =
  insurance_value :: pyfloat
  receipt :: bool
  own_hand :: bool
  collect :: bool

record shipment_request =
  service :: int
  from_party :: party
  to_party :: party
  products :: "product list"
  volumes :: "volume list"
  options :: ship_options

datatype http_body =
    NoBody
  | CartBody shipment_request
  | TrackingBody "json list"
  | ShippedBody json string

record http_request =
  http_method :: string
  url :: string
  bearer :: string
  body :: http_body

text \<open>
  What the program reads of a response: \<open>r.status_code\<close>, \<open>r.text\<close> (also standing for
  \<open>r.content\<close>), and what \<open>r.json()\<close> returns or raises.
\<close>

record http_response =
  status_code :: int
  resp_text :: string
  resp_json :: "exc + json"

text \<open>\<open>r.ok\<close>: the status is not a client or server error.\<close>

definition ok :: "http_response \<Rightarrow> bool" where
  "ok r = (\<not> (400 \<le> status_code r \<and> status_code r < 600))"

text \<open>\<open>r.json() if r.content else {}\<close>.\<close>

definition json_or_empty :: "http_response \<Rightarrow> exc + json" where
  "json_or_empty r = (if resp_text r \<noteq> [] then resp_json r else Inr (JDict []))"

text \<open>One row of the table \<open>orders\<close>. Timestamps are seconds on the world's clock.\<close>

record order_row =
  bagy_order_id :: string
  melhorenvio_order_id :: "string option"
  tracking_code :: "string option"
  status :: string
  created_at :: int
  updated_at :: int
  delivered_at :: "int option"
  retry_count :: int
  last_error :: "string option"

text \<open>
  Observable effects: HTTP requests sent, sleeps, and the two log lines of the retry
  decorator (attempt number, maximum, exception).
\<close>

datatype event =
    Http http_request
  | Sleep int
  | RetryWarning int int exc
  | RetryExhausted int exc

text \<open>
  The world: the table, the effects so far, the clock, and the number of database
  transactions opened so far.
\<close>

record world =
  db :: "order_row list"
  trace :: "event list"
  clock :: int
  db_ops :: nat

text \<open>
  The environment: configuration, library, and two oracles. \<open>net\<close> gives the outcome of
  an HTTP request from the effects so far; \<open>db_fault n\<close> is the exception the \<open>n\<close>-th
  database transaction raises, if any.
\<close>

record env =
  cfg :: config
  lib :: pylib
  net :: "event list \<Rightarrow> http_request \<Rightarrow> exc + http_response"
  db_fault :: "nat \<Rightarrow> exc option"

text \<open>\<open>time.sleep(d)\<close>: a negative argument raises \<open>ValueError\<close>.\<close>

definition sleep :: "int \<Rightarrow> world \<Rightarrow> (exc + unit) \<times> world" where
  "sleep d s =
     (if d < 0 then (Inl (Exc ''ValueError'' ''sleep length must be non-negative''), s)
      else (Inr (), s\<lparr>trace := trace s @ [Sleep d], clock := clock s + d\<rparr>))"

definition log_event :: "event \<Rightarrow> world \<Rightarrow> world" where
  "log_event ev s = s\<lparr>trace := trace s @ [ev]\<rparr>"

text \<open>\<open>requests.post\<close> / \<open>requests.put\<close>: the request is recorded, the oracle answers.\<close>

definition http_send :: "env \<Rightarrow> http_request \<Rightarrow> world \<Rightarrow> (exc + http_response) \<times> world" where
  "http_send e req s = (net e (trace s) req, s\<lparr>trace := trace s @ [Http req]\<rparr>)"

section \<open>The retry decorator (\<open>retry_on_failure\<close>)\<close>

text \<open>
  The body of \<open>wrapper\<close>: the \<open>for\<close> loop over the attempt numbers still to run, with
  \<open>last_exception\<close>. After the loop, \<open>raise last_exception\<close>; raising \<open>None\<close> is a
  \<open>TypeError\<close>.
\<close>

fun retry_loop ::
  "int \<Rightarrow> int \<Rightarrow> (world \<Rightarrow> (exc + 'a) \<times> world) \<Rightarrow> int list \<Rightarrow> exc option \<Rightarrow> world
    \<Rightarrow> (exc + 'a) \<times> world" where
  "retry_loop max_attempts delay func [] last_exception s =
     (case last_exception of
        None \<Rightarrow> (Inl (Exc ''TypeError'' ''exceptions must derive from BaseException''), s)
      | Some e \<Rightarrow> (Inl e, s))"
| "retry_loop max_attempts delay func (attempt # rest) last_exception s =
     (case func s of
        (Inr v, t) \<Rightarrow> (Inr v, t)
      | (Inl e, t) \<Rightarrow>
          if attempt < max_attempts then
            (case sleep delay (log_event (RetryWarning attempt max_attempts e) t) of
               (Inl e', u) \<Rightarrow> (Inl e', u)
             | (Inr _, u) \<Rightarrow> retry_loop max_attempts delay func rest (Some e) u)
          else
            retry_loop max_attempts delay func rest (Some e)
              (log_event (RetryExhausted max_attempts e) t))"

text \<open>\<open>range(1, max_attempts + 1)\<close> is \<open>[1..max_attempts]\<close>.\<close>

definition retry_on_failure ::
  "int \<Rightarrow> int \<Rightarrow> (world \<Rightarrow> (exc + 'a) \<times> world) \<Rightarrow> world \<Rightarrow> (exc + 'a) \<times> world" where
  "retry_on_failure max_attempts delay func s =
     retry_loop max_attempts delay func [1..max_attempts] None s"


text \<open>
  The state in which invocation number \<open>j + 1\<close> of the wrapped function starts, when the
  invocations before it have failed: after each failure the warning is logged and the
  wrapper sleeps \<open>delay\<close>.
\<close>

primrec state_before ::
  "int \<Rightarrow> int \<Rightarrow> (world \<Rightarrow> (exc + 'a) \<times> world) \<Rightarrow> world \<Rightarrow> nat \<Rightarrow> world" where
  "state_before max_attempts delay func s 0 = s"
| "state_before max_attempts delay func s (Suc j) =
     (case func (state_before max_attempts delay func s j) of
        (Inl x, t) \<Rightarrow> snd (sleep delay (log_event (RetryWarning (int j + 1) max_attempts x) t))
      | (Inr v, t) \<Rightarrow> t)"

section \<open>The order store (SQLite table \<open>orders\<close>)\<close>

text \<open>Python's truth value of an optional string (\<open>1 if error else 0\<close>).\<close>

definition truthy_str :: "string option \<Rightarrow> bool" where
  "truthy_str e = (case e of None \<Rightarrow> False | Some m \<Rightarrow> m \<noteq> [])"

text \<open>SQL \<open>COALESCE(a, b)\<close>.\<close>

definition coalesce :: "'a option \<Rightarrow> 'a option \<Rightarrow> 'a option" where
  "coalesce a b = (case a of None \<Rightarrow> b | Some x \<Rightarrow> Some x)"

text \<open>\<open>SELECT ... WHERE bagy_order_id = ?\<close>: the column is \<open>UNIQUE NOT NULL\<close>.\<close>

definition find_row :: "string \<Rightarrow> order_row list \<Rightarrow> order_row option" where
  "find_row k tbl = find (\<lambda>r. bagy_order_id r = k) tbl"

text \<open>
  The \<open>INSERT ... ON CONFLICT(bagy_order_id) DO UPDATE SET ...\<close> statement of \<open>db_save\<close>,
  at time \<open>now\<close> (\<open>CURRENT_TIMESTAMP\<close>). The row the \<open>INSERT\<close> creates takes \<open>created_at\<close>
  from the column default and has a null \<open>delivered_at\<close>.
\<close>

definition inserted_row ::
  "string \<Rightarrow> string option \<Rightarrow> string option \<Rightarrow> string \<Rightarrow> int \<Rightarrow> string option \<Rightarrow> int
    \<Rightarrow> order_row" where
  "inserted_row order_id me_order_id tracking st rc error now =
     \<lparr>bagy_order_id = order_id, melhorenvio_order_id = me_order_id, tracking_code = tracking,
      status = st, created_at = now, updated_at = now, delivered_at = None,
      retry_count = rc, last_error = error\<rparr>"

text \<open>The \<open>DO UPDATE SET\<close> clause applied to the conflicting row.\<close>

definition updated_row ::
  "string option \<Rightarrow> string option \<Rightarrow> string \<Rightarrow> int \<Rightarrow> string option \<Rightarrow> int
    \<Rightarrow> order_row \<Rightarrow> order_row" where
  "updated_row me_order_id tracking st rc error now r =
     r\<lparr>melhorenvio_order_id := coalesce me_order_id (melhorenvio_order_id r),
       tracking_code := coalesce tracking (tracking_code r),
       status := st,
       retry_count := rc,
       last_error := error,
       updated_at := now,
       delivered_at := (if st = ''delivered'' then Some now else delivered_at r)\<rparr>"

definition sql_upsert ::
  "string \<Rightarrow> string option \<Rightarrow> string option \<Rightarrow> string \<Rightarrow> int \<Rightarrow> string option \<Rightarrow> int
    \<Rightarrow> order_row list \<Rightarrow> order_row list" where
  "sql_upsert order_id me_order_id tracking st rc error now tbl =
     (case find_row order_id tbl of
        None \<Rightarrow> tbl @ [inserted_row order_id me_order_id tracking st rc error now]
      | Some _ \<Rightarrow>
          map (\<lambda>r. if bagy_order_id r = order_id
                    then updated_row me_order_id tracking st rc error now r
                    else r) tbl)"

text \<open>
  Binding a Python value to a statement parameter of a \<open>TEXT\<close> column: \<open>None\<close> is \<open>NULL\<close>, a
  string is itself, anything else is what the library makes of it.
\<close>

definition sql_bind :: "pylib \<Rightarrow> json \<Rightarrow> exc + string option" where
  "sql_bind l v =
     (case v of
        JNull \<Rightarrow> Inr None
      | JStr t \<Rightarrow> Inr (Some t)
      | _ \<Rightarrow> (case sql_text l v of
                 Some t \<Rightarrow> Inr (Some t)
               | None \<Rightarrow> Inl (Exc ''InterfaceError'' ''Error binding parameter'')))"

text \<open>A value read from a nullable \<open>TEXT\<close> column, as the Python value.\<close>

definition of_text :: "string option \<Rightarrow> json" where
  "of_text t = (case t of None \<Rightarrow> JNull | Some x \<Rightarrow> JStr x)"

text \<open>
  \<open>db_save(order_id, me_order_id=None, tracking=None, status="created", error=None)\<close>.
  Every caller's omitted arguments are written out at the call. A failure of the
  transaction (logged and re-raised by the source) leaves the table as it was; a \<open>NULL\<close>
  key violates \<open>NOT NULL\<close>.
\<close>

definition db_save ::
  "env \<Rightarrow> json \<Rightarrow> json \<Rightarrow> json \<Rightarrow> string \<Rightarrow> string option \<Rightarrow> world \<Rightarrow> (exc + unit) \<times> world" where
  "db_save e order_id me_order_id tracking st error s =
     (let s' = s\<lparr>db_ops := Suc (db_ops s)\<rparr> in
      case db_fault e (db_ops s) of
        Some x \<Rightarrow> (Inl x, s')
      | None \<Rightarrow>
          (case sql_bind (lib e) order_id of
             Inl x \<Rightarrow> (Inl x, s')
           | Inr None \<Rightarrow> (Inl (Exc ''IntegrityError'' ''NOT NULL constraint failed''), s')
           | Inr (Some k) \<Rightarrow>
               let existing = find_row k (db s);
                   rc = (case existing of Some r \<Rightarrow> retry_count r | None \<Rightarrow> 0)
                          + (if truthy_str error then 1 else 0)
               in
               (case sql_bind (lib e) me_order_id of
                  Inl x \<Rightarrow> (Inl x, s')
                | Inr me \<Rightarrow>
                    (case sql_bind (lib e) tracking of
                       Inl x \<Rightarrow> (Inl x, s')
                     | Inr tr \<Rightarrow>
                         (Inr (), s'\<lparr>db := sql_upsert k me tr st rc error (clock s) (db s)\<rparr>)))))"

text \<open>The \<open>WHERE\<close> clause of \<open>db_pending\<close>.\<close>

definition pending_row :: "config \<Rightarrow> order_row \<Rightarrow> bool" where
  "pending_row c r =
     ((status r = ''created'' \<or> status r = ''shipped'')
      \<and> tracking_code r \<noteq> None
      \<and> tracking_code r \<noteq> Some ''SEM-RASTREIO''
      \<and> retry_count r < MAX_RETRIES c * 2)"

text \<open>
  \<open>db_pending()\<close>: the selected rows, least recently updated first (rows with equal
  \<open>updated_at\<close> in table order); the empty list when the transaction fails.
\<close>

definition db_pending ::
  "env \<Rightarrow> world \<Rightarrow> (string \<times> string option \<times> string option) list \<times> world" where
  "db_pending e s =
     (let s' = s\<lparr>db_ops := Suc (db_ops s)\<rparr> in
      case db_fault e (db_ops s) of
        Some x \<Rightarrow> ([], s')
      | None \<Rightarrow>
          (map (\<lambda>r. (bagy_order_id r, melhorenvio_order_id r, tracking_code r))
             (sort_key updated_at (filter (pending_row (cfg e)) (db s))), s'))"

section \<open>Storefront client\<close>

text \<open>Messages are written without diacritics.\<close>

definition bagy_headers :: "config \<Rightarrow> exc + string" where
  "bagy_headers c =
     (if \<not> truthy_str (BAGY_TOKEN c) then Inl (Exc ''ValueError'' ''BAGY_TOKEN nao configurado'')
      else Inr (the (BAGY_TOKEN c)))"

text \<open>The undecorated body of \<open>bagy_mark_shipped(order_id, tracking_code)\<close>.\<close>

definition bagy_mark_shipped_attempt ::
  "env \<Rightarrow> json \<Rightarrow> json \<Rightarrow> world \<Rightarrow> (exc + json) \<times> world" where
  "bagy_mark_shipped_attempt e order_id tracking s =
     (case bagy_headers (cfg e) of
        Inl x \<Rightarrow> (Inl x, s)
      | Inr tok \<Rightarrow>
          (case http_send e
                  \<lparr>http_method = ''PUT'',
                   url = BAGY_BASE (cfg e) @ ''/orders/'' @ py_str (lib e) order_id
                           @ ''/fulfillment/shipped'',
                   bearer = tok,
                   body = ShippedBody tracking ''Melhor Envio''\<rparr> s of
             (Inl x, t) \<Rightarrow> (Inl x, t)
           | (Inr r, t) \<Rightarrow>
               if \<not> ok r then
                 (Inl (Exc ''Exception''
                        (''Erro Bagy shipped [HTTP '' @ str_int (status_code r) @ '']: ''
                           @ resp_text r)), t)
               else (json_or_empty r, t)))"

definition bagy_mark_shipped :: "env \<Rightarrow> json \<Rightarrow> json \<Rightarrow> world \<Rightarrow> (exc + json) \<times> world" where
  "bagy_mark_shipped e order_id tracking =
     retry_on_failure (MAX_RETRIES (cfg e)) 2 (bagy_mark_shipped_attempt e order_id tracking)"

text \<open>The undecorated body of \<open>bagy_mark_delivered(order_id)\<close>.\<close>

definition bagy_mark_delivered_attempt :: "env \<Rightarrow> json \<Rightarrow> world \<Rightarrow> (exc + json) \<times> world" where
  "bagy_mark_delivered_attempt e order_id s =
     (case bagy_headers (cfg e) of
        Inl x \<Rightarrow> (Inl x, s)
      | Inr tok \<Rightarrow>
          (case http_send e
                  \<lparr>http_method = ''PUT'',
                   url = BAGY_BASE (cfg e) @ ''/orders/'' @ py_str (lib e) order_id
                           @ ''/fulfillment/delivered'',
                   bearer = tok,
                   body = NoBody\<rparr> s of
             (Inl x, t) \<Rightarrow> (Inl x, t)
           | (Inr r, t) \<Rightarrow>
               if \<not> ok r then
                 (Inl (Exc ''Exception''
                        (''Erro Bagy delivered [HTTP '' @ str_int (status_code r) @ '']: ''
                           @ resp_text r)), t)
               else (json_or_empty r, t)))"

definition bagy_mark_delivered :: "env \<Rightarrow> json \<Rightarrow> world \<Rightarrow> (exc + json) \<times> world" where
  "bagy_mark_delivered e order_id =
     retry_on_failure (MAX_RETRIES (cfg e)) 2 (bagy_mark_delivered_attempt e order_id)"


section \<open>Carrier client\<close>

definition melhorenvio_headers :: "config \<Rightarrow> exc + string" where
  "melhorenvio_headers c =
     (if \<not> truthy_str (MELHORENVIO_TOKEN c)
      then Inl (Exc ''ValueError'' ''MELHORENVIO_TOKEN nao configurado'')
      else Inr (the (MELHORENVIO_TOKEN c)))"

text \<open>
  \<open>normalize_order_data(pedido)\<close>: \<open>pedido["data"]\<close> when both keys are present. On a list
  or a string, \<open>in\<close> is membership or substring and the subscript by a string then raises.
\<close>

definition normalize_order_data :: "json \<Rightarrow> exc + json" where
  "normalize_order_data pedido =
     and_then (py_contains ''event'' pedido) (\<lambda>has_event.
     and_then (if has_event then py_contains ''data'' pedido else Inr False) (\<lambda>has_both.
       if has_both then
         (case pedido of
            JDict kvs \<Rightarrow> Inr (case map_of kvs ''data'' of Some v \<Rightarrow> v | None \<Rightarrow> JNull)
          | _ \<Rightarrow> Inl (Exc ''TypeError'' ''indices must be integers''))
       else Inr pedido))"

subsection \<open>The shipment request builder\<close>

text \<open>\<open>len(items)\<close>.\<close>

definition py_len :: "json \<Rightarrow> exc + nat" where
  "py_len v =
     (case v of
        JList xs \<Rightarrow> Inr (length xs)
      | JStr x \<Rightarrow> Inr (length x)
      | JDict kvs \<Rightarrow> Inr (length kvs)
      | _ \<Rightarrow> Inl (Exc ''TypeError'' ''object has no len()''))"

text \<open>The elements a \<open>for\<close> over the value yields: list elements, dict keys, characters.\<close>

definition py_iter :: "json \<Rightarrow> exc + json list" where
  "py_iter v =
     (case v of
        JList xs \<Rightarrow> Inr xs
      | JStr x \<Rightarrow> Inr (map (\<lambda>c. JStr [c]) x)
      | JDict kvs \<Rightarrow> Inr (map (\<lambda>kv. JStr (fst kv)) kvs)
      | _ \<Rightarrow> Inl (Exc ''TypeError'' ''object is not iterable''))"

text \<open>The item used when the order has none (line 313 of the source).\<close>

definition default_item :: json where
  "default_item =
     JDict [(''weight'', JFloat (float_lit (3 / 10))), (''length'', JInt 20), (''height'', JInt 10),
            (''width'', JInt 15), (''quantity'', JInt 1)]"

text \<open>\<open>items = pedido.get("items", []) or []\<close>, the logged \<open>len(items)\<close>, and the default.\<close>

definition order_items :: "json \<Rightarrow> exc + json list" where
  "order_items pedido =
     and_then (dict_get pedido ''items'' (JList [])) (\<lambda>i0.
       let items = py_or i0 (JList []) in
       and_then (py_len items) (\<lambda>_.
         if \<not> truthy items then Inr [default_item] else py_iter items))"

text \<open>
  \<open>float(it.get(key, dflt)) * int(it.get("quantity", 1))\<close>: the integer operand of \<open>*\<close> is
  converted to a float.
\<close>

definition item_times_quantity :: "pylib \<Rightarrow> string \<Rightarrow> json \<Rightarrow> json \<Rightarrow> exc + pyfloat" where
  "item_times_quantity l key dflt it =
     and_then (dict_get it key dflt) (\<lambda>w.
     and_then (py_float l w) (\<lambda>wf.
     and_then (dict_get it ''quantity'' (JInt 1)) (\<lambda>q.
     and_then (py_int l q) (\<lambda>qi.
     and_then (float_of_int qi) (\<lambda>qf. Inr (fmul wf qf))))))"

text \<open>\<open>total_weight\<close> (lines 316-317): \<open>sum(...)\<close>, then \<open>max(total_weight, 0.3)\<close>.\<close>

definition total_weight :: "pylib \<Rightarrow> json list \<Rightarrow> exc + pyfloat" where
  "total_weight l items =
     and_then (map_exc (item_times_quantity l ''weight'' (JFloat (float_lit (3 / 10)))) items)
       (\<lambda>ws. Inr (py_max2 (float_sum l ws) (float_lit (3 / 10))))"

text \<open>
  \<open>max((float(it.get(key, dflt)) for it in items), default=dflt)\<close>: the first element,
  replaced by each later one that is greater; the integer \<open>dflt\<close> when there is none.
\<close>

definition max_dimension :: "pylib \<Rightarrow> string \<Rightarrow> int \<Rightarrow> json list \<Rightarrow> exc + json" where
  "max_dimension l key dflt items =
     and_then (map_exc (\<lambda>it. and_then (dict_get it key (JInt dflt)) (py_float l)) items) (\<lambda>ds.
       Inr (case ds of [] \<Rightarrow> JInt dflt | d # rest \<Rightarrow> JFloat (foldl py_max2 d rest)))"

text \<open>
  \<open>invoice_value\<close> (lines 327-330): \<open>float(total) or sum(...)\<close>, then
  \<open>max(invoice_value, 10.0)\<close>.
\<close>

definition invoice_value :: "pylib \<Rightarrow> json \<Rightarrow> json list \<Rightarrow> exc + pyfloat" where
  "invoice_value l pedido items =
     and_then (dict_get pedido ''total'' (JInt 0)) (\<lambda>tot.
     and_then (py_float l tot) (\<lambda>total.
     and_then (if float_truthy total then Inr total
               else and_then (map_exc (item_times_quantity l ''price'' (JInt 0)) items)
                      (\<lambda>ps. Inr (float_sum l ps))) (\<lambda>v.
       Inr (py_max2 v (float_lit 10)))))"

text \<open>
  \<open>customer_doc\<close> (lines 334-337): \<open>clean_document\<close> of a value of any type (a falsy one
  gives the empty string, another is converted by \<open>str\<close>), emptied when it is not a valid
  CPF.
\<close>

definition customer_document :: "pylib \<Rightarrow> json \<Rightarrow> string" where
  "customer_document l doc =
     (let customer_doc = (if \<not> truthy doc then [] else clean_document (py_str l doc)) in
      if customer_doc \<noteq> [] \<and> \<not> validate_cpf customer_doc then [] else customer_doc)"

text \<open>\<open>clean_zipcode\<close> of a value of any type.\<close>

definition clean_zipcode_value :: "pylib \<Rightarrow> json \<Rightarrow> string" where
  "clean_zipcode_value l z = (if \<not> truthy z then [] else clean_zipcode (py_str l z))"

definition sender_block :: "config \<Rightarrow> party" where
  "sender_block c =
     \<lparr>p_name = JStr (SENDER_NAME c), p_phone = JStr (SENDER_PHONE c),
      p_email = JStr (SENDER_EMAIL c), p_document = JStr (SENDER_DOCUMENT c),
      p_address = JStr (SENDER_ADDRESS c), p_complement = JStr (SENDER_COMPLEMENT c),
      p_number = JStr (SENDER_NUMBER c), p_district = JStr (SENDER_DISTRICT c),
      p_city = JStr (SENDER_CITY c), p_state_abbr = JStr (SENDER_STATE c),
      p_postal_code = JStr (clean_zipcode (SENDER_ZIPCODE c))\<rparr>"

definition recipient_block :: "json \<Rightarrow> json \<Rightarrow> string \<Rightarrow> string \<Rightarrow> exc + party" where
  "recipient_block cust addr customer_doc customer_zipcode =
     and_then (dict_get cust ''name'' (JStr ''Cliente'')) (\<lambda>name.
     and_then (dict_get cust ''phone'' (JStr [])) (\<lambda>phone.
     and_then (dict_get cust ''email'' (JStr [])) (\<lambda>email.
     and_then (dict_get addr ''street'' (JStr [])) (\<lambda>street.
     and_then (dict_get addr ''complement'' (JStr [])) (\<lambda>complement.
     and_then (dict_get addr ''number'' (JStr ''S/N'')) (\<lambda>number.
     and_then (dict_get addr ''neighborhood'' (JStr [])) (\<lambda>neighborhood.
     and_then (dict_get addr ''district'' neighborhood) (\<lambda>district.
     and_then (dict_get addr ''city'' (JStr [])) (\<lambda>city.
     and_then (dict_get addr ''state'' (JStr [])) (\<lambda>state.
       Inr \<lparr>p_name = name, p_phone = phone, p_email = email, p_document = JStr customer_doc,
            p_address = street, p_complement = complement, p_number = number,
            p_district = district, p_city = city, p_state_abbr = state,
            p_postal_code = JStr customer_zipcode\<rparr>))))))))))"

text \<open>
  Lines 291-395 of \<open>send_to_melhorenvio\<close>: from the order to the request. The logging call
  of line 304 reads \<open>cust.get('name', 'N/A')\<close> before \<open>cust\<close> is tested. The dimensions are
  converted by \<open>int\<close> when the \<open>payload\<close> dict is built, in the order height, width, length.
\<close>

definition build_request :: "env \<Rightarrow> json \<Rightarrow> exc + shipment_request" where
  "build_request e pedido0 =
     and_then (normalize_order_data pedido0) (\<lambda>pedido.
     and_then (dict_get pedido ''id'' (JStr ''UNKNOWN'')) (\<lambda>order_id.
     and_then (dict_get pedido ''address'' (JDict [])) (\<lambda>a1.
     and_then (if truthy a1 then Inr a1
               else dict_get pedido ''shipping_address'' (JDict [])) (\<lambda>addr.
       if \<not> truthy addr
       then Inl (Exc ''ValueError'' ''Endereco de entrega nao encontrado no pedido'')
       else
     and_then (dict_get pedido ''customer'' (JDict [])) (\<lambda>cust.
     and_then (dict_get cust ''name'' (JStr ''N/A'')) (\<lambda>_.
       if \<not> truthy cust
       then Inl (Exc ''ValueError'' ''Dados do cliente nao encontrados no pedido'')
       else
     and_then (order_items pedido) (\<lambda>items.
     and_then (total_weight (lib e) items) (\<lambda>tw.
     and_then (max_dimension (lib e) ''length'' 20 items) (\<lambda>max_length.
     and_then (max_dimension (lib e) ''height'' 10 items) (\<lambda>max_height.
     and_then (max_dimension (lib e) ''width'' 15 items) (\<lambda>max_width.
     and_then (invoice_value (lib e) pedido items) (\<lambda>iv.
     and_then (dict_get cust ''document'' (JStr [])) (\<lambda>doc.
     and_then (dict_get addr ''zipcode'' (JStr [])) (\<lambda>zip.
     and_then (recipient_block cust addr (customer_document (lib e) doc)
                 (clean_zipcode_value (lib e) zip)) (\<lambda>rcpt.
     and_then (py_int (lib e) max_height) (\<lambda>height_cm.
     and_then (py_int (lib e) max_width) (\<lambda>width_cm.
     and_then (py_int (lib e) max_length) (\<lambda>length_cm.
       Inr \<lparr>service = SERVICE_ID (cfg e),
            from_party = sender_block (cfg e),
            to_party = rcpt,
            products = [\<lparr>prod_name = ''Pedido #'' @ py_str (lib e) order_id,
                          prod_quantity = 1, unitary_value = iv\<rparr>],
            volumes = [\<lparr>vol_height = height_cm, vol_width = width_cm,
                         vol_length = length_cm, vol_weight = tw\<rparr>],
            options = \<lparr>insurance_value = iv, receipt = False, own_hand = False,
                        collect = False\<rparr>\<rparr>))))))))))))))))))"

text \<open>Lines 416-423: the order id and the tracking code read from the response.\<close>

definition cart_result :: "json \<Rightarrow> exc + (json \<times> json)" where
  "cart_result data =
     and_then (dict_get data ''id'' (JStr [])) (\<lambda>me_order_id.
     and_then (dict_get data ''tracking'' (JStr [])) (\<lambda>t1.
     and_then (if truthy t1 then Inr t1 else dict_get data ''protocol'' (JStr [])) (\<lambda>t2.
       Inr (me_order_id, py_or t2 (JStr ''SEM-RASTREIO'')))))"

text \<open>The undecorated body of \<open>send_to_melhorenvio(pedido)\<close>.\<close>

definition send_to_melhorenvio_attempt ::
  "env \<Rightarrow> json \<Rightarrow> world \<Rightarrow> (exc + (json \<times> json)) \<times> world" where
  "send_to_melhorenvio_attempt e pedido s =
     (case build_request e pedido of
        Inl x \<Rightarrow> (Inl x, s)
      | Inr payload \<Rightarrow>
          (case melhorenvio_headers (cfg e) of
             Inl x \<Rightarrow> (Inl x, s)
           | Inr tok \<Rightarrow>
               (case http_send e
                       \<lparr>http_method = ''POST'', url = MELHORENVIO_BASE (cfg e) @ ''/me/cart'',
                        bearer = tok, body = CartBody payload\<rparr> s of
                  (Inl x, t) \<Rightarrow> (Inl x, t)
                | (Inr r, t) \<Rightarrow>
                    if \<not> ok r then
                      (Inl (Exc ''Exception''
                             (''Erro Melhor Envio [HTTP '' @ str_int (status_code r) @ '']: ''
                                @ resp_text r)), t)
                    else (and_then (json_or_empty r) cart_result, t))))"

definition send_to_melhorenvio ::
  "env \<Rightarrow> json \<Rightarrow> world \<Rightarrow> (exc + (json \<times> json)) \<times> world" where
  "send_to_melhorenvio e pedido =
     retry_on_failure (MAX_RETRIES (cfg e)) 2 (send_to_melhorenvio_attempt e pedido)"

subsection \<open>The weight rule in the words of the specification\<close>





text \<open>
  \<open>w\<close> is the sum \<open>x\<close> floored at \<open>lo\<close>: \<open>lo\<close> when the sum is below it, the sum when the sum
  is \<open>lo\<close> or more.
\<close>

definition spec_floored_at :: "pyfloat \<Rightarrow> pyfloat \<Rightarrow> pyfloat \<Rightarrow> bool" where
  "spec_floored_at lo x w = ((flt x lo \<and> w = lo) \<or> ((flt lo x \<or> feq lo x) \<and> w = x))"

subsection \<open>The delivery query (\<open>melhorenvio_check_delivered\<close>)\<close>

text \<open>\<open>is_delivered\<close> for one lower-cased status text (lines 447-452).\<close>

definition is_delivered :: "string \<Rightarrow> bool" where
  "is_delivered st =
     (py_in ''entregue'' st \<or> py_in ''delivered'' st \<or> py_in ''finalizado'' st
      \<or> st = ''delivered'')"

text \<open>The \<open>for order_data in orders\<close> loop: the first delivered entry returns \<open>True\<close>.\<close>

fun check_orders :: "pylib \<Rightarrow> json list \<Rightarrow> exc + bool" where
  "check_orders l [] = Inr False"
| "check_orders l (order_data # rest) =
     and_then (dict_get order_data ''status'' (JStr [])) (\<lambda>v.
       if is_delivered (lower (py_str l v)) then Inr True else check_orders l rest)"

text \<open>The \<open>try\<close> block of \<open>melhorenvio_check_delivered\<close>.\<close>

definition check_delivered_body :: "env \<Rightarrow> json \<Rightarrow> world \<Rightarrow> (exc + bool) \<times> world" where
  "check_delivered_body e me_order_id s =
     (case melhorenvio_headers (cfg e) of
        Inl x \<Rightarrow> (Inl x, s)
      | Inr tok \<Rightarrow>
          (case http_send e
                  \<lparr>http_method = ''POST'',
                   url = MELHORENVIO_BASE (cfg e) @ ''/me/shipment/tracking'',
                   bearer = tok, body = TrackingBody [me_order_id]\<rparr> s of
             (Inl x, t) \<Rightarrow> (Inl x, t)
           | (Inr r, t) \<Rightarrow>
               if \<not> ok r then (Inr False, t)
               else
                 (and_then (json_or_empty r) (\<lambda>data.
                    check_orders (lib e) (case data of JList xs \<Rightarrow> xs | _ \<Rightarrow> [data])), t)))"

text \<open>The whole function: \<open>except Exception\<close> logs and returns \<open>False\<close>.\<close>

definition melhorenvio_check_delivered ::
  "env \<Rightarrow> json \<Rightarrow> world \<Rightarrow> (exc + bool) \<times> world" where
  "melhorenvio_check_delivered e me_order_id s =
     (case check_delivered_body e me_order_id s of
        (Inl x, t) \<Rightarrow> (Inr False, t)
      | (Inr b, t) \<Rightarrow> (Inr b, t))"




section \<open>The orchestrator (\<open>webhook_handler\<close>)\<close>

text \<open>The JSON bodies the handler returns, by case; the stack trace is left out.\<close>

datatype reply =
    MissingId
  | Ignored json json json
  | AlreadyProcessed string
  | Shipped json json json
  | Failed string json
  | InternalError string

text \<open>
  Lines 656-658: the stored status of the order, if it has a row. A \<open>NULL\<close> parameter
  equals no key.
\<close>

definition lookup_status :: "env \<Rightarrow> json \<Rightarrow> world \<Rightarrow> (exc + string option) \<times> world" where
  "lookup_status e order_id s =
     (let s' = s\<lparr>db_ops := Suc (db_ops s)\<rparr> in
      case db_fault e (db_ops s) of
        Some x \<Rightarrow> (Inl x, s')
      | None \<Rightarrow>
          (case sql_bind (lib e) order_id of
             Inl x \<Rightarrow> (Inl x, s')
           | Inr None \<Rightarrow> (Inr None, s')
           | Inr (Some k) \<Rightarrow> (Inr (map_option status (find_row k (db s))), s')))"

text \<open>Lines 668-676: the three steps inside the inner \<open>try\<close>.\<close>

definition pipeline :: "env \<Rightarrow> json \<Rightarrow> json \<Rightarrow> world \<Rightarrow> (exc + (json \<times> json)) \<times> world" where
  "pipeline e pedido_normalizado order_id s =
     (case send_to_melhorenvio e pedido_normalizado s of
        (Inl x, t) \<Rightarrow> (Inl x, t)
      | (Inr (me_order_id, tracking), t) \<Rightarrow>
          (case bagy_mark_shipped e order_id tracking t of
             (Inl x, u) \<Rightarrow> (Inl x, u)
           | (Inr _, u) \<Rightarrow>
               (case db_save e order_id me_order_id tracking ''shipped'' None u of
                  (Inl x, v) \<Rightarrow> (Inl x, v)
                | (Inr _, v) \<Rightarrow> (Inr (me_order_id, tracking), v))))"

text \<open>
  Lines 667-699: the inner \<open>try\<close> with its \<open>except\<close>, which calls
  \<open>db_save(order_id, status="error", error=error_msg)\<close>.
\<close>

definition process_order ::
  "env \<Rightarrow> json \<Rightarrow> json \<Rightarrow> world \<Rightarrow> (exc + (nat \<times> reply)) \<times> world" where
  "process_order e pedido_normalizado order_id s =
     (case pipeline e pedido_normalizado order_id s of
        (Inr (me_order_id, tracking), t) \<Rightarrow> (Inr (200, Shipped order_id me_order_id tracking), t)
      | (Inl x, t) \<Rightarrow>
          (case db_save e order_id JNull JNull ''error'' (Some (exc_msg x)) t of
             (Inl x', u) \<Rightarrow> (Inl x', u)
           | (Inr _, u) \<Rightarrow> (Inr (500, Failed (exc_msg x) order_id), u)))"

text \<open>The outer \<open>try\<close> block of \<open>webhook_handler\<close>.\<close>

definition handler_body :: "env \<Rightarrow> json \<Rightarrow> world \<Rightarrow> (exc + (nat \<times> reply)) \<times> world" where
  "handler_body e pedido s =
     (case normalize_order_data pedido of
        Inl x \<Rightarrow> (Inl x, s)
      | Inr pedido_normalizado \<Rightarrow>
     (case dict_get pedido_normalizado ''id'' JNull of
        Inl x \<Rightarrow> (Inl x, s)
      | Inr order_id \<Rightarrow>
     (case dict_get pedido_normalizado ''code'' JNull of
        Inl x \<Rightarrow> (Inl x, s)
      | Inr order_code \<Rightarrow>
       if \<not> truthy order_id then (Inr (400, MissingId), s)
       else
     (case dict_get pedido_normalizado ''fulfillment_status'' (JStr []) of
        Inl x \<Rightarrow> (Inl x, s)
      | Inr fulfillment_status \<Rightarrow>
       if fulfillment_status \<noteq> JStr ''invoiced''
       then (Inr (200, Ignored order_id order_code fulfillment_status), s)
       else
     (case lookup_status e order_id s of
        (Inl x, t) \<Rightarrow> (Inl x, t)
      | (Inr existing, t) \<Rightarrow>
          if existing = Some ''shipped'' \<or> existing = Some ''delivered''
          then (Inr (200, AlreadyProcessed (the existing)), t)
          else process_order e pedido_normalizado order_id t)))))"

text \<open>\<open>webhook_handler(pedido)\<close>: the outer \<open>except\<close> answers 500.\<close>

definition webhook_handler :: "env \<Rightarrow> json \<Rightarrow> world \<Rightarrow> (nat \<times> reply) \<times> world" where
  "webhook_handler e pedido s =
     (case handler_body e pedido s of
        (Inr r, t) \<Rightarrow> (r, t)
      | (Inl x, t) \<Rightarrow> ((500, InternalError (exc_msg x)), t))"

section \<open>The reconciliation loop (\<open>tracking_worker\<close>)\<close>

text \<open>Lines 512-514: the \<open>try\<close> block for one pending order.\<close>

definition check_order ::
  "env \<Rightarrow> string \<times> string option \<times> string option \<Rightarrow> world \<Rightarrow> (exc + unit) \<times> world" where
  "check_order e row s =
     (case row of (order_id, me_order_id, tracking) \<Rightarrow>
        if \<not> truthy_str me_order_id then (Inr (), s)
        else
          (case melhorenvio_check_delivered e (of_text me_order_id) s of
             (Inl x, t) \<Rightarrow> (Inl x, t)
           | (Inr False, t) \<Rightarrow> (Inr (), t)
           | (Inr True, t) \<Rightarrow>
               (case bagy_mark_delivered e (JStr order_id) t of
                  (Inl x, u) \<Rightarrow> (Inl x, u)
                | (Inr _, u) \<Rightarrow>
                    db_save e (JStr order_id) (of_text me_order_id) (of_text tracking)
                      ''delivered'' None u)))"

text \<open>
  Lines 511-521: the \<open>try\<close> with its \<open>except\<close>, which calls
  \<open>db_save(bagy_order_id, me_order_id, tracking_code, error=error_msg)\<close>; the \<open>status\<close>
  parameter takes its default \<open>"created"\<close>.
\<close>

definition scan_order ::
  "env \<Rightarrow> string \<times> string option \<times> string option \<Rightarrow> world \<Rightarrow> (exc + unit) \<times> world" where
  "scan_order e row s =
     (case check_order e row s of
        (Inr _, t) \<Rightarrow> (Inr (), t)
      | (Inl x, t) \<Rightarrow>
          (case row of (order_id, me_order_id, tracking) \<Rightarrow>
             db_save e (JStr order_id) (of_text me_order_id) (of_text tracking)
               ''created'' (Some (exc_msg x)) t))"

text \<open>
  Where the worker stands: about to query the pending orders, inside the \<open>for\<close> loop with
  the orders still to check, or stopped by an exception outside the \<open>try\<close>.
\<close>

datatype worker_pc =
    AtFetch
  | InScan "(string \<times> string option \<times> string option) list"
  | Stopped exc

text \<open>
  One step of \<open>tracking_worker\<close>. An exception that leaves the \<open>for\<close> loop is logged by the
  outer \<open>except\<close> and ends the scan; after a scan the worker sleeps \<open>TRACKER_INTERVAL\<close>.
\<close>

fun worker_step :: "env \<Rightarrow> worker_pc \<times> world \<Rightarrow> worker_pc \<times> world" where
  "worker_step e (AtFetch, s) = (case db_pending e s of (pending_orders, t) \<Rightarrow> (InScan pending_orders, t))"
| "worker_step e (InScan (row # rest), s) =
     (case scan_order e row s of
        (Inl x, t) \<Rightarrow> (InScan [], t)
      | (Inr _, t) \<Rightarrow>
          (case sleep 2 t of
             (Inl x, u) \<Rightarrow> (InScan [], u)
           | (Inr _, u) \<Rightarrow> (InScan rest, u)))"
| "worker_step e (InScan [], s) =
     (case sleep (TRACKER_INTERVAL (cfg e)) s of
        (Inl x, t) \<Rightarrow> (Stopped x, t)
      | (Inr _, t) \<Rightarrow> (AtFetch, t))"
| "worker_step e (Stopped x, s) = (Stopped x, s)"

text \<open>\<open>n\<close> steps of the worker.\<close>

fun worker_steps :: "env \<Rightarrow> nat \<Rightarrow> worker_pc \<times> world \<Rightarrow> worker_pc \<times> world" where
  "worker_steps e 0 st = st"
| "worker_steps e (Suc n) st = worker_steps e n (worker_step e st)"

section \<open>The system: order events interleaved with the worker\<close>

text \<open>
  An order event is handled in a thread of the web server while the reconciliation loop
  runs in a thread of its own (lines 726-727). The handler closes the transaction that
  reads the stored status (lines 656-664) before it starts on the remote calls and the
  write of lines 667-699, so that other threads run in between.

  Lines 629-664 of \<open>webhook_handler\<close>: the event is answered there, an exception goes to
  the outer \<open>except\<close>, or the handler passes the guard with the normalised order and its
  id.
\<close>

datatype guard_outcome = Raised exc | Answered "nat \<times> reply" | Passed json json

definition handler_guard :: "env \<Rightarrow> json \<Rightarrow> world \<Rightarrow> guard_outcome \<times> world" where
  "handler_guard e pedido s =
     (case normalize_order_data pedido of
        Inl x \<Rightarrow> (Raised x, s)
      | Inr pedido_normalizado \<Rightarrow>
     (case dict_get pedido_normalizado ''id'' JNull of
        Inl x \<Rightarrow> (Raised x, s)
      | Inr order_id \<Rightarrow>
     (case dict_get pedido_normalizado ''code'' JNull of
        Inl x \<Rightarrow> (Raised x, s)
      | Inr order_code \<Rightarrow>
       if \<not> truthy order_id then (Answered (400, MissingId), s)
       else
     (case dict_get pedido_normalizado ''fulfillment_status'' (JStr []) of
        Inl x \<Rightarrow> (Raised x, s)
      | Inr fulfillment_status \<Rightarrow>
       if fulfillment_status \<noteq> JStr ''invoiced''
       then (Answered (200, Ignored order_id order_code fulfillment_status), s)
       else
     (case lookup_status e order_id s of
        (Inl x, t) \<Rightarrow> (Raised x, t)
      | (Inr existing, t) \<Rightarrow>
          if existing = Some ''shipped'' \<or> existing = Some ''delivered''
          then (Answered (200, AlreadyProcessed (the existing)), t)
          else (Passed pedido_normalizado order_id, t))))))"

text \<open>
  A state of the system: where the worker stands, the handlers that have passed the guard
  and have not yet run lines 667-699 (each with its normalised order and order id), and
  the world. A step is the arrival of an event, whose handler runs up to the end of the
  guard; the rest of one of the waiting handlers; or a step of the worker. The remote
  calls of a step do not touch the table.
\<close>

type_synonym sys_state = "worker_pc \<times> (json \<times> json) list \<times> world"

datatype action = Arrive json | Resume nat | Tick

fun sys_step :: "env \<Rightarrow> sys_state \<Rightarrow> action \<Rightarrow> sys_state" where
  "sys_step e (pc, waiting, s) (Arrive pedido) =
     (case handler_guard e pedido s of
        (Passed pedido_normalizado order_id, t) \<Rightarrow>
          (pc, waiting @ [(pedido_normalizado, order_id)], t)
      | (Raised x, t) \<Rightarrow> (pc, waiting, t)
      | (Answered r, t) \<Rightarrow> (pc, waiting, t))"
| "sys_step e (pc, waiting, s) (Resume i) =
     (if i < length waiting
      then (pc, take i waiting @ drop (Suc i) waiting,
            snd (process_order e (fst (waiting ! i)) (snd (waiting ! i)) s))
      else (pc, waiting, s))"
| "sys_step e (pc, waiting, s) Tick =
     (case worker_step e (pc, s) of (pc', t) \<Rightarrow> (pc', waiting, t))"

definition run :: "env \<Rightarrow> action list \<Rightarrow> sys_state \<Rightarrow> sys_state" where
  "run e acts st = foldl (sys_step e) st acts"

text \<open>
  At start-up the table is empty, no handler is running and the worker is about to query
  the table.
\<close>

definition initial_world :: world where
  "initial_world = \<lparr>db = [], trace = [], clock = 0, db_ops = 0\<rparr>"

definition initial :: sys_state where
  "initial = (AtFetch, [], initial_world)"

text \<open>The table of a state, as the triples of key, status and \<open>delivered_at\<close> of its rows.\<close>

definition delivery_columns :: "sys_state \<Rightarrow> (string \<times> string \<times> int option) list" where
  "delivery_columns st = map (\<lambda>r. (bagy_order_id r, status r, delivered_at r)) (db (snd (snd st)))"

subsection \<open>Events handled without interruption\<close>

text \<open>
  The schedules in which no other step falls between the guard of an event and the rest
  of its handler: each event is then one step, the whole of \<open>webhook_handler\<close>.
\<close>

datatype atomic_action = Event json | Work

fun atomic_step :: "env \<Rightarrow> worker_pc \<times> world \<Rightarrow> atomic_action \<Rightarrow> worker_pc \<times> world" where
  "atomic_step e (pc, s) (Event pedido) = (pc, snd (webhook_handler e pedido s))"
| "atomic_step e (pc, s) Work = worker_step e (pc, s)"

definition atomic_run ::
  "env \<Rightarrow> atomic_action list \<Rightarrow> worker_pc \<times> world \<Rightarrow> worker_pc \<times> world" where
  "atomic_run e acts st = foldl (atomic_step e) st acts"

text \<open>The steps of the system such a schedule stands for.\<close>

fun expand :: "atomic_action \<Rightarrow> action list" where
  "expand (Event pedido) = [Arrive pedido, Resume 0]"
| "expand Work = [Tick]"


subsection \<open>Invariants of the table\<close>

text \<open>
  The invariant of the specification: \<open>delivered_at\<close> is set exactly on the rows whose
  status is \<open>delivered\<close>.
\<close>

definition spec_delivered_at_inv :: "order_row list \<Rightarrow> bool" where
  "spec_delivered_at_inv tbl =
     list_all (\<lambda>r. (delivered_at r \<noteq> None) = (status r = ''delivered'')) tbl"

text \<open>With the \<open>UNIQUE\<close> constraint on the key.\<close>

definition rows_ok :: "order_row list \<Rightarrow> bool" where
  "rows_ok tbl = (distinct (map bagy_order_id tbl) \<and> spec_delivered_at_inv tbl)"

text \<open>
  The orders the worker still has to check in the running scan are distinct, have a row,
  and are not delivered.
\<close>

definition pending_ok ::
  "order_row list \<Rightarrow> (string \<times> string option \<times> string option) list \<Rightarrow> bool" where
  "pending_ok tbl pend =
     (distinct (map fst pend)
      \<and> list_all (\<lambda>x. case find_row (fst x) tbl of
                         Some r \<Rightarrow> status r \<noteq> ''delivered''
                       | None \<Rightarrow> False) pend)"

definition sys_inv :: "worker_pc \<times> world \<Rightarrow> bool" where
  "sys_inv st =
     (rows_ok (db (snd st))
      \<and> (case fst st of InScan pend \<Rightarrow> pending_ok (db (snd st)) pend | _ \<Rightarrow> True))"

text \<open>
  The condition under which the upsert is issued by the handler and by the worker: the
  order has no row and the new status is not \<open>delivered\<close>, or its row is not delivered.
\<close>

definition write_allowed :: "string \<Rightarrow> string \<Rightarrow> order_row list \<Rightarrow> bool" where
  "write_allowed k st tbl =
     (case find_row k tbl of
        None \<Rightarrow> st \<noteq> ''delivered''
      | Some r \<Rightarrow> status r \<noteq> ''delivered'')"

text \<open>
  A step changes the table by at most one upsert, issued under \<open>write_allowed\<close>, and it
  writes \<open>delivered\<close> only for an order that is not among \<open>pend\<close>.
\<close>

definition guarded_write ::
  "order_row list \<Rightarrow> order_row list \<Rightarrow> (string \<times> string option \<times> string option) list \<Rightarrow> bool" where
  "guarded_write tbl tbl' pend =
     (tbl' = tbl
      \<or> (\<exists>k me tr st rc err now.
            write_allowed k st tbl \<and> (st \<noteq> ''delivered'' \<or> k \<notin> fst ` set pend)
            \<and> tbl' = sql_upsert k me tr st rc err now tbl))"

section \<open>Concrete scenarios\<close>

text \<open>A configuration with both tokens set and the default limits of the source.\<close>

definition cfg0 :: config where
  "cfg0 =
     \<lparr>BAGY_TOKEN = Some ''b'', MELHORENVIO_TOKEN = Some ''m'', BAGY_BASE = ''B'',
      MELHORENVIO_BASE = ''M'', SENDER_NAME = ''Loja'', SENDER_PHONE = ''1'',
      SENDER_EMAIL = ''e'', SENDER_DOCUMENT = [], SENDER_ADDRESS = ''Rua'',
      SENDER_COMPLEMENT = [], SENDER_NUMBER = ''1'', SENDER_DISTRICT = ''C'',
      SENDER_CITY = ''SP'', SENDER_STATE = ''SP'', SENDER_ZIPCODE = ''03320-001'',
      SERVICE_ID = 2, TRACKER_INTERVAL = 600, MAX_RETRIES = 3\<rparr>"

text \<open>
  A library that converts no string, binds no value other than strings, and adds the
  terms of a sum from the left.
\<close>

definition lib0 :: pylib where
  "lib0 =
     \<lparr>str_other = (\<lambda>_. []), float_of_str = (\<lambda>_. None), int_of_str = (\<lambda>_. None),
      compensated_sum = False, sql_text = (\<lambda>_. None)\<rparr>"

text \<open>
  The carrier answers every \<open>POST\<close> with one delivered status entry; the storefront
  answers every \<open>PUT\<close> with HTTP 500.
\<close>

definition net_delivered_but_storefront_down :: "event list \<Rightarrow> http_request \<Rightarrow> exc + http_response" where
  "net_delivered_but_storefront_down tr req =
     (if http_method req = ''POST''
      then Inr \<lparr>status_code = 200, resp_text = ''x'',
                resp_json = Inr (JList [JDict [(''status'', JStr ''Delivered'')]])\<rparr>
      else Inr \<lparr>status_code = 500, resp_text = ''boom'',
                resp_json = Inl (Exc ''JSONDecodeError'' [])\<rparr>)"

text \<open>Every request succeeds; the carrier's body has an id and no tracking or protocol.\<close>

definition net_no_tracking :: "event list \<Rightarrow> http_request \<Rightarrow> exc + http_response" where
  "net_no_tracking tr req =
     Inr \<lparr>status_code = 200, resp_text = ''x'', resp_json = Inr (JDict [(''id'', JStr ''ME9'')])\<rparr>"

text \<open>The carrier accepts the shipment, the storefront answers every \<open>PUT\<close> with HTTP 500.\<close>

definition net_carrier_ok_storefront_down :: "event list \<Rightarrow> http_request \<Rightarrow> exc + http_response" where
  "net_carrier_ok_storefront_down tr req =
     (if http_method req = ''POST''
      then Inr \<lparr>status_code = 200, resp_text = ''x'',
                resp_json = Inr (JDict [(''id'', JStr ''ME9''), (''tracking'', JStr ''TR9'')])\<rparr>
      else Inr \<lparr>status_code = 500, resp_text = ''boom'',
                resp_json = Inl (Exc ''JSONDecodeError'' [])\<rparr>)"

text \<open>Every request succeeds; the carrier reports a delivered shipment.\<close>

definition net_all_ok :: "event list \<Rightarrow> http_request \<Rightarrow> exc + http_response" where
  "net_all_ok tr req =
     Inr \<lparr>status_code = 200, resp_text = ''x'',
          resp_json = Inr (JDict [(''id'', JStr ''ME9''), (''tracking'', JStr ''TR9''),
                                  (''status'', JStr ''delivered'')])\<rparr>"

definition env0 :: "(event list \<Rightarrow> http_request \<Rightarrow> exc + http_response) \<Rightarrow> env" where
  "env0 n = \<lparr>cfg = cfg0, lib = lib0, net = n, db_fault = (\<lambda>_. None)\<rparr>"

text \<open>A shipped order with a tracking code, and the same order after a failed check.\<close>

definition row_shipped :: order_row where
  "row_shipped =
     \<lparr>bagy_order_id = ''A'', melhorenvio_order_id = Some ''ME1'', tracking_code = Some ''TR1'',
      status = ''shipped'', created_at = 0, updated_at = 0, delivered_at = None,
      retry_count = 0, last_error = None\<rparr>"

definition row_with_error :: order_row where
  "row_with_error = row_shipped\<lparr>retry_count := 1, last_error := Some ''boom''\<rparr>"

definition world_of :: "order_row list \<Rightarrow> world" where
  "world_of tbl = \<lparr>db = tbl, trace = [], clock = 0, db_ops = 0\<rparr>"

text \<open>An invoiced order with a customer, an address and no items.\<close>

definition pedido_no_items :: json where
  "pedido_no_items =
     JDict [(''id'', JStr ''A''), (''fulfillment_status'', JStr ''invoiced''),
            (''customer'', JDict [(''name'', JStr ''C''), (''document'', JStr ''123.456.789-09'')]),
            (''address'', JDict [(''zipcode'', JStr ''01310-100'')])]"

text \<open>The first two requests fail in transport, later ones succeed.\<close>

definition net_third_time :: "event list \<Rightarrow> http_request \<Rightarrow> exc + http_response" where
  "net_third_time tr req =
     (if length tr < 6 then Inl (Exc ''ConnectionError'' ''down'')
      else Inr \<lparr>status_code = 200, resp_text = [], resp_json = Inr JNull\<rparr>)"

text \<open>The number of HTTP requests in a trace, and the sleeps in it.\<close>

definition http_count :: "event list \<Rightarrow> nat" where
  "http_count tr = length (filter (\<lambda>ev. case ev of Http _ \<Rightarrow> True | _ \<Rightarrow> False) tr)"

definition sleeps_of :: "event list \<Rightarrow> int list" where
  "sleeps_of tr = concat (map (\<lambda>ev. case ev of Sleep d \<Rightarrow> [d] | _ \<Rightarrow> []) tr)"

text \<open>An order whose first synchronisation failed before a shipment was created.\<close>

definition row_error :: order_row where
  "row_error =
     \<lparr>bagy_order_id = ''A'', melhorenvio_order_id = None, tracking_code = None,
      status = ''error'', created_at = 0, updated_at = 0, delivered_at = None,
      retry_count = 1, last_error = Some ''boom''\<rparr>"


text \<open>An order with one item of 0.1 kg, three times.\<close>

definition pedido_tenth_thrice :: json where
  "pedido_tenth_thrice =
     JDict [(''id'', JStr ''C''), (''fulfillment_status'', JStr ''invoiced''),
            (''customer'', JDict [(''name'', JStr ''C'')]),
            (''address'', JDict [(''zipcode'', JStr ''01310-100'')]),
            (''items'', JList [JDict [(''weight'', JFloat (float_lit (1 / 10))),
                                      (''quantity'', JInt 3)]])]"




text \<open>An order with no items whose total is the integer \<open>10 ** 400\<close>.\<close>

definition pedido_huge_total :: json where
  "pedido_huge_total =
     JDict [(''id'', JStr ''E''), (''fulfillment_status'', JStr ''invoiced''),
            (''customer'', JDict [(''name'', JStr ''C'')]),
            (''address'', JDict [(''zipcode'', JStr ''01310-100'')]),
            (''total'', JInt (10 ^ 400))]"

text \<open>The weights of the volumes of a request, if one was built.\<close>

definition request_weights :: "exc + shipment_request \<Rightarrow> pyfloat list" where
  "request_weights r = (case r of Inr req \<Rightarrow> map vol_weight (volumes req) | Inl _ \<Rightarrow> [])"

text \<open>A second shipped order, and the order \<open>A\<close> once delivered at time 0.\<close>

definition row_shipped_b :: order_row where
  "row_shipped_b = row_shipped\<lparr>bagy_order_id := ''B''\<rparr>"

definition row_delivered :: order_row where
  "row_delivered =
     \<lparr>bagy_order_id = ''A'', melhorenvio_order_id = Some ''ME9'', tracking_code = Some ''TR9'',
      status = ''delivered'', created_at = 0, updated_at = 0, delivered_at = Some 0,
      retry_count = 0, last_error = None\<rparr>"

section \<open>CPF validation\<close>

lemma int_of_digit_inj:
  assumes "is_digit x" "is_digit y" and e: "int_of_digit x = int_of_digit y"
  shows "x = y"
proof -
  from e have "int (of_char x) = int (of_char y)" unfolding int_of_digit_def by linarith
  then have "(of_char x :: nat) = of_char y" by (simp only: of_nat_eq_iff)
  then show "x = y" by (simp only: of_char_eq_iff)
qed

lemma length_eleven:
  "length xs = 11 \<Longrightarrow>
     \<exists>a0 a1 a2 a3 a4 a5 a6 a7 a8 a9 a10. xs = [a0, a1, a2, a3, a4, a5, a6, a7, a8, a9, a10]"
  apply (simp add: length_Suc_conv eval_nat_numeral)
  apply (elim exE conjE)
  apply simp
  done

lemma range9: "[0..<9] = [0, 1, 2, 3, 4, 5, 6, 7, 8]"
  by (simp add: upt_rec)

lemma range10: "[0..<10] = [0, 1, 2, 3, 4, 5, 6, 7, 8, 9]"
  by (simp add: upt_rec)

lemma clean_document_filter: "clean_document s = filter is_digit s"
  by (simp add: clean_document_def)

lemma all_same_digits:
  assumes "xs \<noteq> []" "\<forall>c\<in>set xs. is_digit c"
  shows "(xs = replicate (length xs) (xs ! 0)) = spec_all_same (map int_of_digit xs)"
proof -
  have h: "xs ! 0 = hd xs" using assms(1) by (rule hd_conv_nth[symmetric])
  have h2: "hd xs \<in> set xs" using assms(1) by (rule hd_in_set)
  have "(xs = replicate (length xs) (hd xs)) = (\<forall>c\<in>set xs. c = hd xs)"
  proof
    assume a: "xs = replicate (length xs) (hd xs)"
    show "\<forall>c\<in>set xs. c = hd xs"
    proof
      fix c assume "c \<in> set xs"
      then have "c \<in> set (replicate (length xs) (hd xs))" using a by metis
      then show "c = hd xs" by (simp only: in_set_replicate)
    qed
  next
    assume "\<forall>c\<in>set xs. c = hd xs"
    then show "xs = replicate (length xs) (hd xs)" by (rule replicate_length_same[symmetric])
  qed
  also have "\<dots> = (\<forall>c\<in>set xs. int_of_digit c = int_of_digit (hd xs))"
  proof
    assume "\<forall>c\<in>set xs. c = hd xs"
    then show "\<forall>c\<in>set xs. int_of_digit c = int_of_digit (hd xs)" by metis
  next
    assume a: "\<forall>c\<in>set xs. int_of_digit c = int_of_digit (hd xs)"
    show "\<forall>c\<in>set xs. c = hd xs"
    proof
      fix c assume c: "c \<in> set xs"
      have 1: "is_digit c" using assms(2) c by (rule bspec)
      have 2: "is_digit (hd xs)" using assms(2) h2 by (rule bspec)
      have 3: "int_of_digit c = int_of_digit (hd xs)" using a c by (rule bspec)
      show "c = hd xs" using 1 2 3 by (rule int_of_digit_inj)
    qed
  qed
  also have "\<dots> = spec_all_same (map int_of_digit xs)"
    unfolding spec_all_same_def list_all_iff using assms(1) by (simp add: hd_map)
  finally show ?thesis unfolding h .
qed

lemma weighted_sum_first:
  assumes "length cpf = 11"
  shows "(\<Sum>i\<leftarrow>[0..<9]. f (cpf ! i) * (10 - int i)) =
           sum_list (map2 (*) [10, 9, 8, 7, 6, 5, 4, 3, 2] (take 9 (map f cpf)))"
proof -
  obtain a0 a1 a2 a3 a4 a5 a6 a7 a8 a9 a10
    where e: "cpf = [a0, a1, a2, a3, a4, a5, a6, a7, a8, a9, a10]"
    using length_eleven[OF assms] by (elim exE)
  show ?thesis unfolding e range9 by (simp add: take_Cons')
qed

lemma weighted_sum_second:
  assumes "length cpf = 11"
  shows "(\<Sum>i\<leftarrow>[0..<10]. f (cpf ! i) * (11 - int i)) =
           sum_list (map2 (*) [11, 10, 9, 8, 7, 6, 5, 4, 3, 2] (take 10 (map f cpf)))"
proof -
  obtain a0 a1 a2 a3 a4 a5 a6 a7 a8 a9 a10
    where e: "cpf = [a0, a1, a2, a3, a4, a5, a6, a7, a8, a9, a10]"
    using length_eleven[OF assms] by (elim exE)
  show ?thesis unfolding e range10 by (simp add: take_Cons')
qed

lemma check_chain:
  "(if A then False
    else let d1 = 11 - (s1 mod 11); d1 = (if d1 \<ge> 10 then 0 else d1) in
      if d1 \<noteq> x9 then False
      else let d2 = 11 - (s2 mod 11); d2 = (if d2 \<ge> 10 then 0 else d2) in
        if d2 \<noteq> x10 then False else True)
   = (\<not> A \<and> x9 = (let v = 11 - s1 mod 11 in if v \<ge> 10 then 0 else v)
        \<and> x10 = (let v = 11 - s2 mod 11 in if v \<ge> 10 then 0 else v))"
  for s1 s2 x9 x10 :: int
  by (auto simp: Let_def)

lemma validate_cpf_eq_spec: "validate_cpf s = spec_cpf_valid s"
proof (cases "length (filter is_digit s) = 11")
  case False
  then show ?thesis
    by (simp add: validate_cpf_def spec_cpf_valid_def clean_document_filter Let_def)
next
  case True
  let ?c = "filter is_digit s"
  have ne: "?c \<noteq> []" using True by auto
  have same: "(?c = replicate 11 (?c ! 0)) = spec_all_same (map int_of_digit ?c)"
    using all_same_digits[OF ne] True by simp
  have n9: "map int_of_digit ?c ! 9 = int_of_digit (?c ! 9)"
    and n10: "map int_of_digit ?c ! 10 = int_of_digit (?c ! 10)" using True by simp_all
  have len: "length (map int_of_digit ?c) = 11" using True by simp
  have "validate_cpf s =
    (if spec_all_same (map int_of_digit ?c) then False
     else let d1 = 11 - (sum_list (map2 (*) [10, 9, 8, 7, 6, 5, 4, 3, 2]
                           (take 9 (map int_of_digit ?c))) mod 11);
              d1 = (if d1 \<ge> 10 then 0 else d1) in
       if d1 \<noteq> int_of_digit (?c ! 9) then False
       else let d2 = 11 - (sum_list (map2 (*) [11, 10, 9, 8, 7, 6, 5, 4, 3, 2]
                             (take 10 (map int_of_digit ?c))) mod 11);
                d2 = (if d2 \<ge> 10 then 0 else d2) in
         if d2 \<noteq> int_of_digit (?c ! 10) then False else True)"
    unfolding validate_cpf_def clean_document_filter Let_def
      weighted_sum_first[OF True] weighted_sum_second[OF True] same
    using True by (simp only: simp_thms if_False)
  also have "\<dots> =
    (\<not> spec_all_same (map int_of_digit ?c)
     \<and> int_of_digit (?c ! 9) =
         (let v = 11 - sum_list (map2 (*) [10, 9, 8, 7, 6, 5, 4, 3, 2]
                         (take 9 (map int_of_digit ?c))) mod 11
          in if v \<ge> 10 then 0 else v)
     \<and> int_of_digit (?c ! 10) =
         (let v = 11 - sum_list (map2 (*) [11, 10, 9, 8, 7, 6, 5, 4, 3, 2]
                         (take 10 (map int_of_digit ?c))) mod 11
          in if v \<ge> 10 then 0 else v))"
    by (rule check_chain)
  also have "\<dots> = spec_cpf_valid s"
    unfolding spec_cpf_valid_def Let_def spec_check_digit_def n9 n10 len
    by (simp only: simp_thms)
  finally show ?thesis .
qed

lemma digits_split:
  "is_digit x \<Longrightarrow> map int_of_digit (filter is_digit (a @ [x] @ b)) =
     map int_of_digit (filter is_digit a) @ int_of_digit x # map int_of_digit (filter is_digit b)"
  by simp

lemma spec_last_digits:
  assumes "spec_cpf_valid (a @ [x] @ b)" "is_digit x" "length (filter is_digit b) \<le> 1"
  shows "int_of_digit x = spec_check_digit
            (if filter is_digit b = [] then [11, 10, 9, 8, 7, 6, 5, 4, 3, 2]
             else [10, 9, 8, 7, 6, 5, 4, 3, 2])
            (map int_of_digit (filter is_digit a))"
proof -
  let ?da = "map int_of_digit (filter is_digit a)"
  let ?db = "map int_of_digit (filter is_digit b)"
  let ?ds = "?da @ int_of_digit x # ?db"
  have v: "length ?ds = 11"
    "?ds ! 9 = spec_check_digit [10, 9, 8, 7, 6, 5, 4, 3, 2] (take 9 ?ds)"
    "?ds ! 10 = spec_check_digit [11, 10, 9, 8, 7, 6, 5, 4, 3, 2] (take 10 ?ds)"
    using assms(1) unfolding spec_cpf_valid_def Let_def digits_split[OF assms(2)] by blast+
  have "length ?db \<le> 1" using assms(3) by simp
  then consider "length ?db = 0" | "length ?db = 1" by linarith
  then show ?thesis
  proof cases
    case 1
    then have l: "length ?da = 10" using v(1) by simp
    have "?ds ! 10 = int_of_digit x" using l by (simp add: nth_append)
    moreover have "take 10 ?ds = ?da" using l by simp
    ultimately show ?thesis using v(3) 1 by simp
  next
    case 2
    then have l: "length ?da = 9" using v(1) by simp
    have "?ds ! 9 = int_of_digit x" using l by (simp add: nth_append)
    moreover have "take 9 ?ds = ?da" using l by simp
    moreover have "filter is_digit b \<noteq> []" using 2 by auto
    ultimately show ?thesis using v(2) by simp
  qed
qed

lemma spec_cpf_perturbed:
  assumes "spec_cpf_valid (a @ [x] @ b)" "is_digit x" "is_digit y" "x \<noteq> y"
    "length (filter is_digit b) \<le> 1"
  shows "\<not> spec_cpf_valid (a @ [y] @ b)"
proof
  assume "spec_cpf_valid (a @ [y] @ b)"
  from spec_last_digits[OF this assms(3) assms(5)] spec_last_digits[OF assms(1) assms(2) assms(5)]
  have "int_of_digit x = int_of_digit y" by (simp only:)
  with assms(2,3) have "x = y" by (rule int_of_digit_inj)
  with assms(4) show False by simp
qed

text \<open>
  Claim C5. \<open>validate_cpf\<close> returns true exactly for the strings that, once cleaned to
  their digits, have 11 digits, are not one digit repeated, and carry the two modulus-11
  check digits (weights 10..2 over the first nine digits, weights 11..2 over the first
  ten, a value of 10 or more mapped to 0). Hence, in a string that validates, replacing one
  of the last two digits by a different digit gives a string that does not validate.
\<close>

theorem validate_cpf_characterised:
  "validate_cpf s = spec_cpf_valid s \<and>
   (validate_cpf (a @ [x] @ b) \<and> is_digit x \<and> is_digit y \<and> x \<noteq> y
      \<and> length (filter is_digit b) \<le> 1
    \<longrightarrow> \<not> validate_cpf (a @ [y] @ b))"
  using spec_cpf_perturbed[of a x b y] by (simp only: validate_cpf_eq_spec) blast

theorem validate_cpf_characterised_witness:
  "validate_cpf ''123.456.789-09'' \<and> spec_cpf_valid ''123.456.789-09''
   \<and> \<not> validate_cpf ''123.456.789-08'' \<and> \<not> validate_cpf ''123.456.789-19''"
proof -
  have v: "validate_cpf ''123.456.789-09''" by code_simp
  have d: "is_digit CHR ''9''" "is_digit CHR ''8''" "is_digit CHR ''0''" "is_digit CHR ''1''"
    by code_simp+
  have l0: "length (filter is_digit []) \<le> 1" "length (filter is_digit ''9'') \<le> 1" by code_simp+
  have 1: "\<not> validate_cpf (''123.456.789-0'' @ [CHR ''8''] @ [])"
    using validate_cpf_characterised[of "''123.456.789-09''" "''123.456.789-0''" "CHR ''9''" "[]" "CHR ''8''"]
      v d l0 by simp
  have 2: "\<not> validate_cpf (''123.456.789-'' @ [CHR ''1''] @ ''9'')"
    using validate_cpf_characterised[of "''123.456.789-09''" "''123.456.789-''" "CHR ''0''" "''9''" "CHR ''1''"]
      v d l0 by simp
  have 3: "spec_cpf_valid ''123.456.789-09''"
    using validate_cpf_characterised[of "''123.456.789-09''" "[]" "CHR ''0''" "[]" "CHR ''0''"] v
    by blast
  show ?thesis using v 1 2 3 by simp
qed


section \<open>The order store\<close>

lemma find_append_cases:
  "find P (xs @ ys) = (case find P xs of None \<Rightarrow> find P ys | Some x \<Rightarrow> Some x)"
  by (induction xs) auto

lemma find_row_key: "find_row k tbl = Some r \<Longrightarrow> bagy_order_id r = k"
  unfolding find_row_def by (induction tbl) (auto split: if_splits)

lemma find_row_mem: "find_row k tbl = Some r \<Longrightarrow> r \<in> set tbl"
  unfolding find_row_def by (induction tbl) (auto split: if_splits)

lemma find_row_None: "(find_row k tbl = None) = (k \<notin> bagy_order_id ` set tbl)"
  unfolding find_row_def by (induction tbl) auto

lemma updated_row_key [simp]:
  "bagy_order_id (updated_row me tr st rc err now r) = bagy_order_id r"
  by (simp add: updated_row_def)

lemma find_row_map_update:
  "find_row k' (map (\<lambda>r. if bagy_order_id r = k then updated_row me tr st rc err now r else r) tbl)
   = (if k' = k then map_option (updated_row me tr st rc err now) (find_row k tbl)
      else find_row k' tbl)"
  unfolding find_row_def by (induction tbl) auto

lemma find_row_upsert_same:
  "find_row k (sql_upsert k me tr st rc err now tbl) =
     Some (case find_row k tbl of
             None \<Rightarrow> inserted_row k me tr st rc err now
           | Some r \<Rightarrow> updated_row me tr st rc err now r)"
proof (cases "find_row k tbl")
  case None
  then show ?thesis
    by (simp add: sql_upsert_def find_row_def find_append_cases inserted_row_def)
next
  case (Some r)
  then show ?thesis by (simp add: sql_upsert_def find_row_map_update)
qed

lemma find_row_upsert_other:
  "k' \<noteq> k \<Longrightarrow> find_row k' (sql_upsert k me tr st rc err now tbl) = find_row k' tbl"
proof (cases "find_row k tbl")
  case None
  assume "k' \<noteq> k"
  with None show ?thesis
    by (simp add: sql_upsert_def find_row_def find_append_cases inserted_row_def
        split: option.splits)
next
  case (Some r)
  assume "k' \<noteq> k"
  with Some show ?thesis by (simp add: sql_upsert_def find_row_map_update)
qed

lemma sql_bind_JStr [simp]: "sql_bind l (JStr k) = Inr (Some k)"
  by (simp add: sql_bind_def)

lemma sql_bind_JNull [simp]: "sql_bind l JNull = Inr None"
  by (simp add: sql_bind_def)

lemma sql_bind_of_text [simp]: "sql_bind l (of_text t) = Inr t"
  by (cases t) (simp_all add: of_text_def)

text \<open>What a write that went through leaves in the table.\<close>

lemma db_save_ok:
  assumes "db_save e order_id me tr st err s = (Inr (), t)"
  shows "\<exists>k me' tr'. sql_bind (lib e) order_id = Inr (Some k) \<and> sql_bind (lib e) me = Inr me'
           \<and> sql_bind (lib e) tr = Inr tr'
           \<and> t = s\<lparr>db_ops := Suc (db_ops s),
                    db := sql_upsert k me' tr' st
                            ((case find_row k (db s) of Some r \<Rightarrow> retry_count r | None \<Rightarrow> 0)
                               + (if truthy_str err then 1 else 0))
                            err (clock s) (db s)\<rparr>"
  using assms unfolding db_save_def Let_def
  by (auto split: option.splits sum.splits)

lemma db_save_failed:
  assumes "db_save e order_id me tr st err s = (Inl x, t)"
  shows "t = s\<lparr>db_ops := Suc (db_ops s)\<rparr>"
  using assms unfolding db_save_def Let_def
  by (auto split: option.splits sum.splits)

text \<open>
  Claim C2, as the code has it. The statement \<open>last_error = ?\<close> of the upsert has no
  \<open>COALESCE\<close>: a write that went through stores its own \<open>error\<close> argument. A write without
  an error on an existing record therefore sets \<open>last_error\<close> to null and keeps the
  stored \<open>retry_count\<close>.
\<close>

theorem success_write_clears_last_error:
  assumes "db_save e order_id me tr st None s = (Inr (), t)"
    and "sql_bind (lib e) order_id = Inr (Some k)"
    and "find_row k (db s) = Some r"
  shows "\<exists>r'. find_row k (db t) = Some r' \<and> last_error r' = None
           \<and> retry_count r' = retry_count r"
proof -
  from db_save_ok[OF assms(1)] assms(2) assms(3)
  have "db t = sql_upsert k (projr (sql_bind (lib e) me)) (projr (sql_bind (lib e) tr)) st
                 (retry_count r) None (clock s) (db s)"
    by (auto simp: truthy_str_def)
  then show ?thesis
    by (simp add: find_row_upsert_same assms(3) updated_row_def)
qed

theorem success_write_clears_last_error_witness:
  "db_save (env0 net_all_ok) (JStr ''A'') (JStr ''ME1'') (JStr ''TR1'') ''delivered'' None
       (world_of [row_with_error])
     = (Inr (), \<lparr>db = [row_with_error\<lparr>status := ''delivered'', last_error := None,
                                      delivered_at := Some 0\<rparr>],
                 trace = [], clock = 0, db_ops = 1\<rparr>)
   \<and> (\<exists>r'. find_row ''A'' (db (snd (db_save (env0 net_all_ok) (JStr ''A'') (JStr ''ME1'')
                 (JStr ''TR1'') ''delivered'' None (world_of [row_with_error])))) = Some r'
          \<and> last_error r' = None \<and> retry_count r' = 1)"
proof -
  let ?t = "\<lparr>db = [row_with_error\<lparr>status := ''delivered'', last_error := None,
                                      delivered_at := Some 0\<rparr>],
                 trace = [], clock = 0, db_ops = 1\<rparr>"
  have run: "db_save (env0 net_all_ok) (JStr ''A'') (JStr ''ME1'') (JStr ''TR1'') ''delivered''
               None (world_of [row_with_error]) = (Inr (), ?t)"
    by code_simp
  have b: "sql_bind (lib (env0 net_all_ok)) (JStr ''A'') = Inr (Some ''A'')" by simp
  have f: "find_row ''A'' (db (world_of [row_with_error])) = Some row_with_error" by code_simp
  have rc: "retry_count row_with_error = 1" by code_simp
  from success_write_clears_last_error[OF run b f] rc run show ?thesis by simp
qed

text \<open>
  The claim as stated fails: the order below has \<open>last_error = "boom"\<close>, and after the
  write that marks it delivered its \<open>last_error\<close> is null.
\<close>

theorem success_write_keeps_last_error_counterexample:
  "last_error row_with_error = Some ''boom''
   \<and> map last_error (db (snd (db_save (env0 net_all_ok) (JStr ''A'') (JStr ''ME1'')
        (JStr ''TR1'') ''delivered'' None (world_of [row_with_error])))) = [None]"
  by code_simp


section \<open>The sentinel tracking code\<close>

lemma pipeline_ok:
  assumes "pipeline e p oid s = (Inr (me, tr), t)"
  shows "\<exists>u. db_save e oid me tr ''shipped'' None u = (Inr (), t)"
  using assms unfolding pipeline_def
  by (auto split: prod.splits sum.splits)

lemma process_order_shipped:
  assumes "process_order e pn oid' s1 = (Inr (c, Shipped oid me tr), t)"
  shows "pipeline e pn oid s1 = (Inr (me, tr), t) \<and> oid' = oid"
  using assms unfolding process_order_def
  by (auto split: prod.splits sum.splits)

lemma handler_process:
  assumes "webhook_handler e p s = ((c, Shipped oid me tr), t)"
  shows "\<exists>pn oid' s1. process_order e pn oid' s1 = (Inr (c, Shipped oid me tr), t)"
  using assms unfolding webhook_handler_def handler_body_def
  by (auto split: prod.splits sum.splits if_splits)

lemma handler_shipped:
  assumes "webhook_handler e p s = ((c, Shipped oid me tr), t)"
  shows "\<exists>u. db_save e oid me tr ''shipped'' None u = (Inr (), t)"
proof -
  from handler_process[OF assms] obtain pn oid' s1
    where "process_order e pn oid' s1 = (Inr (c, Shipped oid me tr), t)" by blast
  then have "pipeline e pn oid s1 = (Inr (me, tr), t)" by (simp add: process_order_shipped)
  then show ?thesis by (rule pipeline_ok)
qed

lemma pending_rows:
  assumes "x \<in> set (fst (db_pending e s))"
  shows "\<exists>r \<in> set (db s). pending_row (cfg e) r
           \<and> x = (bagy_order_id r, melhorenvio_order_id r, tracking_code r)"
  using assms unfolding db_pending_def Let_def
  by (auto split: option.splits)

lemma distinct_keys_row:
  assumes "distinct (map bagy_order_id tbl)" "r \<in> set tbl" "find_row k tbl = Some r'"
    "bagy_order_id r = k"
  shows "r = r'"
proof -
  have "inj_on bagy_order_id (set tbl)" using assms(1) by (simp add: distinct_map)
  moreover have "r' \<in> set tbl" "bagy_order_id r' = k"
    using assms(3) by (simp_all add: find_row_mem find_row_key)
  ultimately show ?thesis using assms(2,4) by (auto dest: inj_onD)
qed

text \<open>
  Claim C7. When the carrier's answer to the create-shipment request has neither a truthy
  \<open>tracking\<close> nor a truthy \<open>protocol\<close>, the attempt returns the tracking code
  \<open>"SEM-RASTREIO"\<close>; when the handler answers that the order was shipped with that code,
  the order's row holds exactly that code; and an order whose stored tracking code is
  that sentinel or null is not among the orders \<open>db_pending\<close> returns.
\<close>

theorem sentinel_tracking:
  "(build_request e pedido = Inr payload \<and> melhorenvio_headers (cfg e) = Inr tok
      \<and> net e (trace s)
           \<lparr>http_method = ''POST'', url = MELHORENVIO_BASE (cfg e) @ ''/me/cart'',
            bearer = tok, body = CartBody payload\<rparr> = Inr r
      \<and> ok r \<and> json_or_empty r = Inr (JDict kvs)
      \<and> \<not> truthy (case map_of kvs ''tracking'' of Some v \<Rightarrow> v | None \<Rightarrow> JStr [])
      \<and> \<not> truthy (case map_of kvs ''protocol'' of Some v \<Rightarrow> v | None \<Rightarrow> JStr [])
    \<longrightarrow> fst (send_to_melhorenvio_attempt e pedido s)
          = Inr (case map_of kvs ''id'' of Some v \<Rightarrow> v | None \<Rightarrow> JStr [], JStr ''SEM-RASTREIO''))
   \<and> (webhook_handler e pedido s = ((c, Shipped oid me (JStr ''SEM-RASTREIO'')), t)
    \<longrightarrow> (\<exists>k row. sql_bind (lib e) oid = Inr (Some k) \<and> find_row k (db t) = Some row
             \<and> tracking_code row = Some ''SEM-RASTREIO''))
   \<and> (distinct (map bagy_order_id (db s)) \<and> find_row k' (db s) = Some row'
        \<and> (tracking_code row' = None \<or> tracking_code row' = Some ''SEM-RASTREIO'')
    \<longrightarrow> k' \<notin> fst ` set (fst (db_pending e s)))"
proof (intro conjI impI)
  assume a: "build_request e pedido = Inr payload \<and> melhorenvio_headers (cfg e) = Inr tok
      \<and> net e (trace s)
           \<lparr>http_method = ''POST'', url = MELHORENVIO_BASE (cfg e) @ ''/me/cart'',
            bearer = tok, body = CartBody payload\<rparr> = Inr r
      \<and> ok r \<and> json_or_empty r = Inr (JDict kvs)
      \<and> \<not> truthy (case map_of kvs ''tracking'' of Some v \<Rightarrow> v | None \<Rightarrow> JStr [])
      \<and> \<not> truthy (case map_of kvs ''protocol'' of Some v \<Rightarrow> v | None \<Rightarrow> JStr [])"
  then have "cart_result (JDict kvs)
       = Inr (case map_of kvs ''id'' of Some v \<Rightarrow> v | None \<Rightarrow> JStr [], JStr ''SEM-RASTREIO'')"
    by (simp add: cart_result_def dict_get_def py_or_def)
  with a show "fst (send_to_melhorenvio_attempt e pedido s)
          = Inr (case map_of kvs ''id'' of Some v \<Rightarrow> v | None \<Rightarrow> JStr [], JStr ''SEM-RASTREIO'')"
    by (simp add: send_to_melhorenvio_attempt_def http_send_def)
next
  assume "webhook_handler e pedido s = ((c, Shipped oid me (JStr ''SEM-RASTREIO'')), t)"
  then obtain u where "db_save e oid me (JStr ''SEM-RASTREIO'') ''shipped'' None u = (Inr (), t)"
    using handler_shipped by blast
  from db_save_ok[OF this] obtain k me' where
    k: "sql_bind (lib e) oid = Inr (Some k)" and
    t: "db t = sql_upsert k me' (Some ''SEM-RASTREIO'') ''shipped''
           ((case find_row k (db u) of Some r \<Rightarrow> retry_count r | None \<Rightarrow> 0)
              + (if truthy_str None then 1 else 0)) None (clock u) (db u)"
    by auto
  show "\<exists>k row. sql_bind (lib e) oid = Inr (Some k) \<and> find_row k (db t) = Some row
             \<and> tracking_code row = Some ''SEM-RASTREIO''"
  proof (intro exI conjI)
    show "sql_bind (lib e) oid = Inr (Some k)" by (rule k)
    show "find_row k (db t) = Some (case find_row k (db u) of
             None \<Rightarrow> inserted_row k me' (Some ''SEM-RASTREIO'') ''shipped''
               ((case find_row k (db u) of Some r \<Rightarrow> retry_count r | None \<Rightarrow> 0)
                  + (if truthy_str None then 1 else 0)) None (clock u)
           | Some r \<Rightarrow> updated_row me' (Some ''SEM-RASTREIO'') ''shipped''
               ((case find_row k (db u) of Some r \<Rightarrow> retry_count r | None \<Rightarrow> 0)
                  + (if truthy_str None then 1 else 0)) None (clock u) r)"
      unfolding t by (rule find_row_upsert_same)
    show "tracking_code (case find_row k (db u) of
             None \<Rightarrow> inserted_row k me' (Some ''SEM-RASTREIO'') ''shipped''
               ((case find_row k (db u) of Some r \<Rightarrow> retry_count r | None \<Rightarrow> 0)
                  + (if truthy_str None then 1 else 0)) None (clock u)
           | Some r \<Rightarrow> updated_row me' (Some ''SEM-RASTREIO'') ''shipped''
               ((case find_row k (db u) of Some r \<Rightarrow> retry_count r | None \<Rightarrow> 0)
                  + (if truthy_str None then 1 else 0)) None (clock u) r)
          = Some ''SEM-RASTREIO''"
      by (simp add: inserted_row_def updated_row_def coalesce_def split: option.splits)
  qed
next
  assume a: "distinct (map bagy_order_id (db s)) \<and> find_row k' (db s) = Some row'
        \<and> (tracking_code row' = None \<or> tracking_code row' = Some ''SEM-RASTREIO'')"
  show "k' \<notin> fst ` set (fst (db_pending e s))"
  proof
    assume "k' \<in> fst ` set (fst (db_pending e s))"
    then obtain x where x: "x \<in> set (fst (db_pending e s))" "fst x = k'" by auto
    from pending_rows[OF x(1)] obtain r0 where
      r0: "r0 \<in> set (db s)" "pending_row (cfg e) r0"
        "x = (bagy_order_id r0, melhorenvio_order_id r0, tracking_code r0)" by blast
    have "bagy_order_id r0 = k'" using r0(3) x(2) by simp
    with a r0(1) have "r0 = row'" using distinct_keys_row by blast
    with r0(2) a show False by (auto simp: pending_row_def)
  qed
qed

theorem sentinel_tracking_witness:
  "fst (send_to_melhorenvio_attempt (env0 net_no_tracking) pedido_no_items (world_of []))
       = Inr (JStr ''ME9'', JStr ''SEM-RASTREIO'')
   \<and> webhook_handler (env0 net_no_tracking) pedido_no_items (world_of [])
       = ((200, Shipped (JStr ''A'') (JStr ''ME9'') (JStr ''SEM-RASTREIO'')),
          snd (webhook_handler (env0 net_no_tracking) pedido_no_items (world_of [])))
   \<and> (\<exists>row. find_row ''A'' (db (snd (webhook_handler (env0 net_no_tracking) pedido_no_items
                 (world_of [])))) = Some row
          \<and> tracking_code row = Some ''SEM-RASTREIO'')
   \<and> ''A'' \<notin> fst ` set (fst (db_pending (env0 net_no_tracking)
        (snd (webhook_handler (env0 net_no_tracking) pedido_no_items (world_of [])))))"
proof -
  let ?e = "env0 net_no_tracking"
  let ?w = "world_of []"
  let ?t = "snd (webhook_handler ?e pedido_no_items ?w)"
  let ?row = "\<lparr>bagy_order_id = ''A'', melhorenvio_order_id = Some ''ME9'',
      tracking_code = Some ''SEM-RASTREIO'', status = ''shipped'', created_at = 0,
      updated_at = 0, delivered_at = None, retry_count = 0, last_error = None\<rparr>"
  let ?r = "\<lparr>status_code = 200, resp_text = ''x'',
             resp_json = Inr (JDict [(''id'', JStr ''ME9'')])\<rparr>"
  let ?kvs = "[(''id'', JStr ''ME9'')]"
  let ?payload = "projr (build_request ?e pedido_no_items)"
  have "\<not> isl (build_request ?e pedido_no_items)" by code_simp
  then have b: "build_request ?e pedido_no_items = Inr ?payload" by simp
  have h: "melhorenvio_headers (cfg ?e) = Inr ''m''" by code_simp
  have n: "net ?e (trace ?w)
             \<lparr>http_method = ''POST'', url = MELHORENVIO_BASE (cfg ?e) @ ''/me/cart'',
              bearer = ''m'', body = CartBody ?payload\<rparr> = Inr ?r"
    by (simp add: env0_def net_no_tracking_def)
  have o: "ok ?r" by code_simp
  have j: "json_or_empty ?r = Inr (JDict ?kvs)" by code_simp
  have att: "fst (send_to_melhorenvio_attempt ?e pedido_no_items ?w)
       = Inr (JStr ''ME9'', JStr ''SEM-RASTREIO'')"
    using sentinel_tracking[where e = ?e and pedido = pedido_no_items and payload = ?payload
        and tok = "''m''" and s = ?w and r = ?r and kvs = ?kvs, THEN conjunct1]
      b h n o j by simp
  have "fst (webhook_handler ?e pedido_no_items ?w)
      = (200, Shipped (JStr ''A'') (JStr ''ME9'') (JStr ''SEM-RASTREIO''))" by code_simp
  then have run: "webhook_handler ?e pedido_no_items ?w
     = ((200, Shipped (JStr ''A'') (JStr ''ME9'') (JStr ''SEM-RASTREIO'')), ?t)"
    by (simp add: prod_eq_iff)
  from sentinel_tracking[where e = ?e and pedido = pedido_no_items and s = ?w and c = 200
      and oid = "JStr ''A''" and me = "JStr ''ME9''" and t = ?t,
      THEN conjunct2, THEN conjunct1, rule_format, OF run]
  obtain k row where k: "sql_bind (lib ?e) (JStr ''A'') = Inr (Some k)"
    and row: "find_row k (db ?t) = Some row" "tracking_code row = Some ''SEM-RASTREIO''"
    by blast
  have "k = ''A''" using k by simp
  with row have rec: "\<exists>row. find_row ''A'' (db ?t) = Some row
      \<and> tracking_code row = Some ''SEM-RASTREIO''" by blast
  have db: "db ?t = [?row]" by code_simp
  have d: "distinct (map bagy_order_id (db ?t))" unfolding db by simp
  have f: "find_row ''A'' (db ?t) = Some ?row" unfolding db by (simp add: find_row_def)
  have excl: "''A'' \<notin> fst ` set (fst (db_pending ?e ?t))"
    using sentinel_tracking[where e = ?e and s = ?t and k' = "''A''" and row' = ?row,
        THEN conjunct2, THEN conjunct2] d f
    by simp
  from att run rec excl show ?thesis by blast
qed


section \<open>The delivery query\<close>









section \<open>The retry decorator\<close>

lemma sleep_ok: "0 \<le> d \<Longrightarrow> fst (sleep d s) = Inr ()"
  by (simp add: sleep_def)

lemma state_before_failed:
  assumes "func (state_before mx d func s j) = (Inl x, t)"
  shows "state_before mx d func s (Suc j) = snd (sleep d (log_event (RetryWarning (int j + 1) mx x) t))"
  using assms by simp

lemma retry_loop_success:
  assumes "0 \<le> d" and "int k \<le> mx" and "1 \<le> k"
    and "func (state_before mx d func s (k - 1)) = (Inr v, t)"
    and "\<forall>j<k - 1. isl (fst (func (state_before mx d func s j)))"
    and "j0 \<le> k - 1"
  shows "retry_loop mx d func [int j0 + 1..mx] lst (state_before mx d func s j0) = (Inr v, t)"
  using assms(6)
proof (induction "k - 1 - j0" arbitrary: j0 lst)
  case 0
  then have j0: "j0 = k - 1" by simp
  have le: "int j0 + 1 \<le> mx" using j0 assms(2,3) by linarith
  show ?case
    unfolding upto_rec1[OF le] using assms(4) j0 by simp
next
  case (Suc m)
  then have lt: "j0 < k - 1" by linarith
  have le: "int j0 + 1 \<le> mx" using lt assms(2) by linarith
  have lt_mx: "int j0 + 1 < mx" using lt assms(2) by linarith
  from assms(5) lt have "isl (fst (func (state_before mx d func s j0)))" by blast
  then obtain x t' where f: "func (state_before mx d func s j0) = (Inl x, t')"
    by (cases "func (state_before mx d func s j0)") (auto simp: isl_def)
  let ?u = "log_event (RetryWarning (int j0 + 1) mx x) t'"
  obtain u where sl: "sleep d ?u = (Inr (), u)"
    using sleep_ok[OF assms(1), of ?u] by (cases "sleep d ?u") auto
  have nxt: "state_before mx d func s (Suc j0) = u"
    using f sl by simp
  have e: "int (Suc j0) + 1 = int j0 + 1 + 1" by simp
  have m: "m = k - 1 - Suc j0" using Suc.hyps(2) by linarith
  have le': "Suc j0 \<le> k - 1" using lt by linarith
  have ih: "retry_loop mx d func [int j0 + 1 + 1..mx] (Some x) u = (Inr v, t)"
    using Suc.hyps(1)[OF m le', of "Some x"] unfolding nxt e .
  have "retry_loop mx d func ((int j0 + 1) # [int j0 + 1 + 1..mx]) lst
          (state_before mx d func s j0)
        = retry_loop mx d func [int j0 + 1 + 1..mx] (Some x) u"
    using lt_mx by (simp add: f sl)
  also have "\<dots> = (Inr v, t)" by (rule ih)
  finally show ?case unfolding upto_rec1[OF le] .
qed

lemma retry_loop_exhausted:
  assumes "0 \<le> d" and "1 \<le> mx"
    and "\<forall>j<nat mx. isl (fst (func (state_before mx d func s j)))"
    and "j0 \<le> nat mx - 1"
  shows "\<exists>x t. func (state_before mx d func s (nat mx - 1)) = (Inl x, t)
           \<and> retry_loop mx d func [int j0 + 1..mx] lst (state_before mx d func s j0)
               = (Inl x, log_event (RetryExhausted mx x) t)"
  using assms(4)
proof (induction "nat mx - 1 - j0" arbitrary: j0 lst)
  case 0
  then have j0: "j0 = nat mx - 1" by simp
  have eq: "int j0 + 1 = mx" using j0 assms(2) by linarith
  have le: "int j0 + 1 \<le> mx" using eq by simp
  have "j0 < nat mx" using j0 assms(2) by linarith
  with assms(3) have "isl (fst (func (state_before mx d func s j0)))" by blast
  then obtain x t' where f: "func (state_before mx d func s j0) = (Inl x, t')"
    by (cases "func (state_before mx d func s j0)") (auto simp: isl_def)
  have emp: "[int j0 + 1 + 1..mx] = []" using eq by simp
  have "retry_loop mx d func ((int j0 + 1) # [int j0 + 1 + 1..mx]) lst
          (state_before mx d func s j0) = (Inl x, log_event (RetryExhausted mx x) t')"
    using eq unfolding emp by (simp add: f)
  then show ?case using f j0 unfolding upto_rec1[OF le] by auto
next
  case (Suc m)
  then have lt: "j0 < nat mx - 1" by linarith
  have le: "int j0 + 1 \<le> mx" using lt by linarith
  have lt_mx: "int j0 + 1 < mx" using lt by linarith
  have "j0 < nat mx" using lt by linarith
  with assms(3) have "isl (fst (func (state_before mx d func s j0)))" by blast
  then obtain x t' where f: "func (state_before mx d func s j0) = (Inl x, t')"
    by (cases "func (state_before mx d func s j0)") (auto simp: isl_def)
  let ?u = "log_event (RetryWarning (int j0 + 1) mx x) t'"
  obtain u where sl: "sleep d ?u = (Inr (), u)"
    using sleep_ok[OF assms(1), of ?u] by (cases "sleep d ?u") auto
  have nxt: "state_before mx d func s (Suc j0) = u"
    using f sl by simp
  have e: "int (Suc j0) + 1 = int j0 + 1 + 1" by simp
  have m: "m = nat mx - 1 - Suc j0" using Suc.hyps(2) by linarith
  have le': "Suc j0 \<le> nat mx - 1" using lt by linarith
  from Suc.hyps(1)[OF m le', of "Some x"]
  obtain y t where ih: "func (state_before mx d func s (nat mx - 1)) = (Inl y, t)"
    "retry_loop mx d func [int j0 + 1 + 1..mx] (Some x) u
       = (Inl y, log_event (RetryExhausted mx y) t)"
    unfolding nxt e by blast
  have "retry_loop mx d func ((int j0 + 1) # [int j0 + 1 + 1..mx]) lst
          (state_before mx d func s j0)
        = retry_loop mx d func [int j0 + 1 + 1..mx] (Some x) u"
    using lt_mx by (simp add: f sl)
  also have "\<dots> = (Inl y, log_event (RetryExhausted mx y) t)" by (rule ih(2))
  finally show ?case using ih(1) unfolding upto_rec1[OF le] by auto
qed

text \<open>
  Claim C3. With \<open>max_attempts \<ge> 1\<close> (and a delay \<open>time.sleep\<close> accepts): if invocation
  \<open>k \<le> max_attempts\<close> is the first to succeed, the wrapper returns its result in the state
  that invocation leaves, so after exactly \<open>k\<close> invocations, each failed one followed by
  the warning and a sleep of \<open>delay\<close>; if all \<open>max_attempts\<close> invocations fail, the wrapper
  raises the exception of the last one, unchanged, after logging it with the number of
  attempts, and does not sleep after the last attempt.
\<close>

theorem retry_on_failure_contract:
  assumes "1 \<le> max_attempts" and "0 \<le> delay"
  shows
    "(1 \<le> k \<and> int k \<le> max_attempts
        \<and> (\<forall>j<k - 1. isl (fst (func (state_before max_attempts delay func s j))))
        \<and> func (state_before max_attempts delay func s (k - 1)) = (Inr v, t)
      \<longrightarrow> retry_on_failure max_attempts delay func s = (Inr v, t))
     \<and> ((\<forall>j<nat max_attempts. isl (fst (func (state_before max_attempts delay func s j))))
      \<longrightarrow> (\<exists>x u. func (state_before max_attempts delay func s (nat max_attempts - 1)) = (Inl x, u)
             \<and> retry_on_failure max_attempts delay func s
                 = (Inl x, log_event (RetryExhausted max_attempts x) u)))"
proof (intro conjI impI)
  assume a: "1 \<le> k \<and> int k \<le> max_attempts
        \<and> (\<forall>j<k - 1. isl (fst (func (state_before max_attempts delay func s j))))
        \<and> func (state_before max_attempts delay func s (k - 1)) = (Inr v, t)"
  have "retry_loop max_attempts delay func [int 0 + 1..max_attempts] None
          (state_before max_attempts delay func s 0) = (Inr v, t)"
    using a by (intro retry_loop_success[where k = k] assms(2)) auto
  then show "retry_on_failure max_attempts delay func s = (Inr v, t)"
    by (simp add: retry_on_failure_def)
next
  assume a: "\<forall>j<nat max_attempts. isl (fst (func (state_before max_attempts delay func s j)))"
  have "\<exists>x u. func (state_before max_attempts delay func s (nat max_attempts - 1)) = (Inl x, u)
           \<and> retry_loop max_attempts delay func [int 0 + 1..max_attempts] None
                (state_before max_attempts delay func s 0)
               = (Inl x, log_event (RetryExhausted max_attempts x) u)"
    using a by (intro retry_loop_exhausted assms) auto
  then show "\<exists>x u. func (state_before max_attempts delay func s (nat max_attempts - 1)) = (Inl x, u)
             \<and> retry_on_failure max_attempts delay func s
                 = (Inl x, log_event (RetryExhausted max_attempts x) u)"
    by (simp add: retry_on_failure_def)
qed

lemma below_two: "(\<forall>j<(2::nat). P j) = (P 0 \<and> P (Suc 0))"
  by (auto simp: less_Suc_eq numeral_2_eq_2)

lemma below_three: "(\<forall>j<(3::nat). P j) = (P 0 \<and> P (Suc 0) \<and> P (Suc (Suc 0)))"
  by (auto simp: less_Suc_eq numeral_3_eq_3)

theorem retry_on_failure_contract_witness:
  "fst (retry_on_failure 3 2 (bagy_mark_delivered_attempt (env0 net_third_time) (JStr ''A''))
          (world_of [])) = Inr (JDict [])
   \<and> http_count (trace (snd (retry_on_failure 3 2
          (bagy_mark_delivered_attempt (env0 net_third_time) (JStr ''A'')) (world_of [])))) = 3
   \<and> sleeps_of (trace (snd (retry_on_failure 3 2
          (bagy_mark_delivered_attempt (env0 net_third_time) (JStr ''A'')) (world_of [])))) = [2, 2]
   \<and> fst (retry_on_failure 3 2
          (bagy_mark_delivered_attempt (env0 net_delivered_but_storefront_down) (JStr ''A''))
          (world_of [])) = Inl (Exc ''Exception'' ''Erro Bagy delivered [HTTP 500]: boom'')"
proof -
  let ?f = "bagy_mark_delivered_attempt (env0 net_third_time) (JStr ''A'')"
  let ?g = "bagy_mark_delivered_attempt (env0 net_delivered_but_storefront_down) (JStr ''A'')"
  let ?s = "world_of []"
  let ?t = "snd (?f (state_before 3 2 ?f ?s 2))"
  have f0: "isl (fst (?f (state_before 3 2 ?f ?s 0)))" by code_simp
  have f1: "isl (fst (?f (state_before 3 2 ?f ?s (Suc 0))))" by code_simp
  have f2: "fst (?f (state_before 3 2 ?f ?s 2)) = Inr (JDict [])" by code_simp
  have fails: "\<forall>j<3 - 1. isl (fst (?f (state_before 3 2 ?f ?s j)))"
    using f0 f1 by (simp add: below_two)
  have last: "?f (state_before 3 2 ?f ?s (3 - 1)) = (Inr (JDict []), ?t)"
    using f2 by (simp add: prod_eq_iff)
  have r: "retry_on_failure 3 2 ?f ?s = (Inr (JDict []), ?t)"
    using retry_on_failure_contract[of 3 2 3 ?f ?s "JDict []" ?t, THEN conjunct1] fails last
    by simp
  have c: "http_count (trace ?t) = 3" by code_simp
  have sl: "sleeps_of (trace ?t) = [2, 2]" by code_simp
  have g0: "isl (fst (?g (state_before 3 2 ?g ?s 0)))" by code_simp
  have g1: "isl (fst (?g (state_before 3 2 ?g ?s (Suc 0))))" by code_simp
  have g2: "isl (fst (?g (state_before 3 2 ?g ?s (Suc (Suc 0)))))" by code_simp
  have gl: "fst (?g (state_before 3 2 ?g ?s 2))
              = Inl (Exc ''Exception'' ''Erro Bagy delivered [HTTP 500]: boom'')" by code_simp
  have gfails: "\<forall>j<nat 3. isl (fst (?g (state_before 3 2 ?g ?s j)))"
    using g0 g1 g2 by (simp add: below_three)
  have p: "(1::int) \<le> 3" "(0::int) \<le> 2" by simp_all
  from retry_on_failure_contract[OF p, where func = ?g and s = ?s,
      THEN conjunct2, THEN mp, OF gfails]
  obtain x u where xu: "?g (state_before 3 2 ?g ?s (nat 3 - 1)) = (Inl x, u)"
    "retry_on_failure 3 2 ?g ?s = (Inl x, log_event (RetryExhausted 3 x) u)"
    by blast
  have "nat 3 - 1 = (2::nat)" by simp
  with xu(1) gl have "x = Exc ''Exception'' ''Erro Bagy delivered [HTTP 500]: boom''" by simp
  with xu(2) r c sl show ?thesis by simp
qed


section \<open>The orchestrator\<close>

lemma dict_get_dict: "dict_get d k x = Inr v \<Longrightarrow> \<exists>kvs. d = JDict kvs"
  by (cases d) (simp_all add: dict_get_def)

lemma dict_get_total: "dict_get (JDict kvs) k x = Inr (case map_of kvs k of Some v \<Rightarrow> v | None \<Rightarrow> x)"
  by (simp add: dict_get_def)

lemma lookup_status_found:
  assumes "db_fault e (db_ops s) = None" "sql_bind (lib e) oid = Inr (Some k)"
  shows "lookup_status e oid s
           = (Inr (map_option status (find_row k (db s))), s\<lparr>db_ops := Suc (db_ops s)\<rparr>)"
  using assms by (simp add: lookup_status_def)

text \<open>Past the filters, the handler is the status lookup followed by the guard.\<close>

lemma handler_body_invoiced:
  assumes "normalize_order_data pedido = Inr pn"
    and "dict_get pn ''id'' JNull = Inr oid" and "truthy oid"
    and "dict_get pn ''fulfillment_status'' (JStr []) = Inr (JStr ''invoiced'')"
    and "db_fault e (db_ops s) = None" and "sql_bind (lib e) oid = Inr (Some k)"
  shows "handler_body e pedido s =
           (let existing = map_option status (find_row k (db s));
                s0 = s\<lparr>db_ops := Suc (db_ops s)\<rparr>
            in if existing = Some ''shipped'' \<or> existing = Some ''delivered''
               then (Inr (200, AlreadyProcessed (the existing)), s0)
               else process_order e pn oid s0)"
proof -
  from dict_get_dict[OF assms(2)] obtain kvs where pn: "pn = JDict kvs" by blast
  have code: "dict_get pn ''code'' JNull
                = Inr (case map_of kvs ''code'' of Some v \<Rightarrow> v | None \<Rightarrow> JNull)"
    unfolding pn by (rule dict_get_total)
  show ?thesis
    unfolding handler_body_def
    by (simp add: assms(1-4) code lookup_status_found[OF assms(5,6)] Let_def)
qed

lemma handler_body_not_invoiced:
  assumes "normalize_order_data pedido = Inr pn"
    and "dict_get pn ''id'' JNull = Inr oid" and "truthy oid"
    and "dict_get pn ''fulfillment_status'' (JStr []) \<noteq> Inr (JStr ''invoiced'')"
  shows "\<exists>code fs. handler_body e pedido s = (Inr (200, Ignored oid code fs), s)"
proof -
  from dict_get_dict[OF assms(2)] obtain kvs where pn: "pn = JDict kvs" by blast
  have code: "dict_get pn ''code'' JNull
                = Inr (case map_of kvs ''code'' of Some v \<Rightarrow> v | None \<Rightarrow> JNull)"
    unfolding pn by (rule dict_get_total)
  have fs: "dict_get pn ''fulfillment_status'' (JStr [])
                = Inr (case map_of kvs ''fulfillment_status'' of Some v \<Rightarrow> v | None \<Rightarrow> JStr [])"
    unfolding pn by (rule dict_get_total)
  show ?thesis
    unfolding handler_body_def using assms(4)
    by (simp add: assms(1-3) code fs)
qed

text \<open>
  Claim C4. For an order event whose order id has a stored record with status \<open>shipped\<close>
  or \<open>delivered\<close>, the handler sends no request, leaves the table as it was and answers
  200; for an invoiced event the answer is "already processed" with the stored status (an
  event that is not invoiced has been answered "ignored" by the filter before the guard).
  When the stored status is \<open>error\<close> the guard does not apply: the answer to an invoiced
  event is the one of the processing pipeline run on the order.
\<close>

theorem already_processed_guard:
  assumes "normalize_order_data pedido = Inr pn"
    and "dict_get pn ''id'' JNull = Inr oid" and "truthy oid"
    and "db_fault e (db_ops s) = None" and "sql_bind (lib e) oid = Inr (Some k)"
    and "find_row k (db s) = Some r"
  shows "(status r = ''shipped'' \<or> status r = ''delivered''
          \<longrightarrow> fst (fst (webhook_handler e pedido s)) = 200
              \<and> trace (snd (webhook_handler e pedido s)) = trace s
              \<and> db (snd (webhook_handler e pedido s)) = db s)
       \<and> (dict_get pn ''fulfillment_status'' (JStr []) = Inr (JStr ''invoiced'')
            \<and> (status r = ''shipped'' \<or> status r = ''delivered'')
          \<longrightarrow> webhook_handler e pedido s
                = ((200, AlreadyProcessed (status r)), s\<lparr>db_ops := Suc (db_ops s)\<rparr>))
       \<and> (dict_get pn ''fulfillment_status'' (JStr []) = Inr (JStr ''invoiced'')
            \<and> status r = ''error''
          \<longrightarrow> webhook_handler e pedido s
                = (case process_order e pn oid (s\<lparr>db_ops := Suc (db_ops s)\<rparr>) of
                     (Inr a, t) \<Rightarrow> (a, t)
                   | (Inl x, t) \<Rightarrow> ((500, InternalError (exc_msg x)), t))
              \<and> (\<forall>st. fst (process_order e pn oid (s\<lparr>db_ops := Suc (db_ops s)\<rparr>))
                         \<noteq> Inr (200, AlreadyProcessed st)))"
proof -
  have no_ap: "fst (process_order e pn oid u) \<noteq> Inr (200, AlreadyProcessed st)" for u st
    unfolding process_order_def by (auto split: prod.splits sum.splits)
  have quiet: "status r = ''shipped'' \<or> status r = ''delivered''
          \<longrightarrow> fst (fst (webhook_handler e pedido s)) = 200
              \<and> trace (snd (webhook_handler e pedido s)) = trace s
              \<and> db (snd (webhook_handler e pedido s)) = db s"
  proof
    assume st: "status r = ''shipped'' \<or> status r = ''delivered''"
    show "fst (fst (webhook_handler e pedido s)) = 200
              \<and> trace (snd (webhook_handler e pedido s)) = trace s
              \<and> db (snd (webhook_handler e pedido s)) = db s"
    proof (cases "dict_get pn ''fulfillment_status'' (JStr []) = Inr (JStr ''invoiced'')")
      case True
      note hb = handler_body_invoiced[OF assms(1-3) True assms(4,5)]
      show ?thesis unfolding webhook_handler_def hb using st by (auto simp: assms(6) Let_def)
    next
      case False
      from handler_body_not_invoiced[OF assms(1-3) False, of e s]
      obtain code fs where "handler_body e pedido s = (Inr (200, Ignored oid code fs), s)"
        by blast
      then show ?thesis by (simp add: webhook_handler_def)
    qed
  qed
  have blocked: "dict_get pn ''fulfillment_status'' (JStr []) = Inr (JStr ''invoiced'')
            \<and> (status r = ''shipped'' \<or> status r = ''delivered'')
          \<longrightarrow> webhook_handler e pedido s
                = ((200, AlreadyProcessed (status r)), s\<lparr>db_ops := Suc (db_ops s)\<rparr>)"
  proof
    assume a: "dict_get pn ''fulfillment_status'' (JStr []) = Inr (JStr ''invoiced'')
            \<and> (status r = ''shipped'' \<or> status r = ''delivered'')"
    note hb = handler_body_invoiced[OF assms(1-3) a[THEN conjunct1] assms(4,5)]
    show "webhook_handler e pedido s
                = ((200, AlreadyProcessed (status r)), s\<lparr>db_ops := Suc (db_ops s)\<rparr>)"
      unfolding webhook_handler_def hb using a by (auto simp: assms(6) Let_def)
  qed
  have again: "dict_get pn ''fulfillment_status'' (JStr []) = Inr (JStr ''invoiced'')
            \<and> status r = ''error''
          \<longrightarrow> webhook_handler e pedido s
                = (case process_order e pn oid (s\<lparr>db_ops := Suc (db_ops s)\<rparr>) of
                     (Inr a, t) \<Rightarrow> (a, t)
                   | (Inl x, t) \<Rightarrow> ((500, InternalError (exc_msg x)), t))
              \<and> (\<forall>st. fst (process_order e pn oid (s\<lparr>db_ops := Suc (db_ops s)\<rparr>))
                         \<noteq> Inr (200, AlreadyProcessed st))"
  proof
    assume a: "dict_get pn ''fulfillment_status'' (JStr []) = Inr (JStr ''invoiced'')
            \<and> status r = ''error''"
    note hb = handler_body_invoiced[OF assms(1-3) a[THEN conjunct1] assms(4,5)]
    have "webhook_handler e pedido s
                = (case process_order e pn oid (s\<lparr>db_ops := Suc (db_ops s)\<rparr>) of
                     (Inr a, t) \<Rightarrow> (a, t)
                   | (Inl x, t) \<Rightarrow> ((500, InternalError (exc_msg x)), t))"
      unfolding webhook_handler_def hb using a by (auto simp: assms(6) Let_def)
    with no_ap show "webhook_handler e pedido s
                = (case process_order e pn oid (s\<lparr>db_ops := Suc (db_ops s)\<rparr>) of
                     (Inr a, t) \<Rightarrow> (a, t)
                   | (Inl x, t) \<Rightarrow> ((500, InternalError (exc_msg x)), t))
              \<and> (\<forall>st. fst (process_order e pn oid (s\<lparr>db_ops := Suc (db_ops s)\<rparr>))
                         \<noteq> Inr (200, AlreadyProcessed st))"
      by blast
  qed
  show ?thesis by (intro conjI quiet blocked again)
qed

theorem already_processed_guard_witness:
  "webhook_handler (env0 net_all_ok) pedido_no_items (world_of [row_shipped])
     = ((200, AlreadyProcessed ''shipped''), (world_of [row_shipped])\<lparr>db_ops := 1\<rparr>)
   \<and> trace (snd (webhook_handler (env0 net_all_ok) pedido_no_items (world_of [row_shipped]))) = []
   \<and> db (snd (webhook_handler (env0 net_all_ok) pedido_no_items (world_of [row_shipped])))
       = [row_shipped]
   \<and> fst (webhook_handler (env0 net_all_ok) pedido_no_items (world_of [row_error]))
       = (200, Shipped (JStr ''A'') (JStr ''ME9'') (JStr ''TR9''))
   \<and> http_count (trace (snd (webhook_handler (env0 net_all_ok) pedido_no_items
        (world_of [row_error])))) = 2
   \<and> map status (db (snd (webhook_handler (env0 net_all_ok) pedido_no_items
        (world_of [row_error])))) = [''shipped'']"
proof -
  let ?e = "env0 net_all_ok"
  have n: "normalize_order_data pedido_no_items = Inr pedido_no_items" by code_simp
  have i: "dict_get pedido_no_items ''id'' JNull = Inr (JStr ''A'')" by code_simp
  have tr: "truthy (JStr ''A'')" by simp
  have f: "dict_get pedido_no_items ''fulfillment_status'' (JStr []) = Inr (JStr ''invoiced'')"
    by code_simp
  have b: "sql_bind (lib ?e) (JStr ''A'') = Inr (Some ''A'')" by simp
  have d1: "db_fault ?e (db_ops (world_of [row_shipped])) = None" by code_simp
  have r1: "find_row ''A'' (db (world_of [row_shipped])) = Some row_shipped" by code_simp
  have st1: "status row_shipped = ''shipped''" by code_simp
  have ops1: "db_ops (world_of [row_shipped]) = 0" "trace (world_of [row_shipped]) = []"
    "db (world_of [row_shipped]) = [row_shipped]"
    by code_simp+
  note g1 = already_processed_guard[OF n i tr d1 b r1]
  have 1: "webhook_handler ?e pedido_no_items (world_of [row_shipped])
     = ((200, AlreadyProcessed ''shipped''), (world_of [row_shipped])\<lparr>db_ops := 1\<rparr>)"
    using g1[THEN conjunct2, THEN conjunct1] f st1 ops1 by simp
  have nc: "trace (snd (webhook_handler ?e pedido_no_items (world_of [row_shipped]))) = []
     \<and> db (snd (webhook_handler ?e pedido_no_items (world_of [row_shipped]))) = [row_shipped]"
    using g1[THEN conjunct1] st1 ops1 by simp
  have d2: "db_fault ?e (db_ops (world_of [row_error])) = None" by code_simp
  have r2: "find_row ''A'' (db (world_of [row_error])) = Some row_error" by code_simp
  have st2: "status row_error = ''error''" by code_simp
  have "fst (process_order ?e pedido_no_items (JStr ''A'')
             ((world_of [row_error])\<lparr>db_ops := Suc (db_ops (world_of [row_error]))\<rparr>))
           = Inr (200, Shipped (JStr ''A'') (JStr ''ME9'') (JStr ''TR9''))"
    by code_simp
  then obtain t2 where p: "process_order ?e pedido_no_items (JStr ''A'')
             ((world_of [row_error])\<lparr>db_ops := Suc (db_ops (world_of [row_error]))\<rparr>)
           = (Inr (200, Shipped (JStr ''A'') (JStr ''ME9'') (JStr ''TR9'')), t2)"
    by (metis prod.collapse)
  have 2: "fst (webhook_handler ?e pedido_no_items (world_of [row_error]))
       = (200, Shipped (JStr ''A'') (JStr ''ME9'') (JStr ''TR9''))"
    using already_processed_guard[OF n i tr d2 b r2, THEN conjunct2, THEN conjunct2] f st2
    by (simp add: p)
  have 3: "http_count (trace (snd (webhook_handler ?e pedido_no_items (world_of [row_error])))) = 2"
    by code_simp
  have 4: "map status (db (snd (webhook_handler ?e pedido_no_items (world_of [row_error]))))
             = [''shipped'']"
    by code_simp
  from 1 nc 2 3 4 show ?thesis by blast
qed


section \<open>Effects of the clients on the table\<close>

lemma sleep_db [simp]: "db (snd (sleep d s)) = db s"
  by (simp add: sleep_def)

lemma log_event_db [simp]: "db (log_event ev s) = db s"
  by (simp add: log_event_def)

lemma http_send_db [simp]: "db (snd (http_send e req s)) = db s"
  by (simp add: http_send_def)

lemma http_send_dbD: "http_send e req s = (r, t) \<Longrightarrow> db t = db s"
  by (auto simp: http_send_def)

lemma retry_loop_db:
  assumes "\<And>s. db (snd (func s)) = db s"
  shows "db (snd (retry_loop mx d func as lst s)) = db s"
proof (induction as arbitrary: lst s)
  case Nil
  then show ?case by (simp split: option.splits)
next
  case (Cons a as)
  obtain r t where f: "func s = (r, t)" by (cases "func s")
  have t: "db t = db s" using assms[of s] f by simp
  show ?case
  proof (cases r)
    case (Inr v)
    then show ?thesis using f t by simp
  next
    case (Inl x)
    show ?thesis
    proof (cases "a < mx")
      case True
      let ?u = "log_event (RetryWarning a mx x) t"
      obtain q u where sl: "sleep d ?u = (q, u)" by (cases "sleep d ?u")
      have u: "db u = db s" using sleep_db[of d ?u] sl t by simp
      show ?thesis
      proof (cases q)
        case (Inl y)
        then show ?thesis using f \<open>r = Inl x\<close> True sl u by simp
      next
        case (Inr z)
        then show ?thesis using f \<open>r = Inl x\<close> True sl u Cons.IH[of "Some x" u] by simp
      qed
    next
      case False
      then show ?thesis
        using f \<open>r = Inl x\<close> t Cons.IH[of "Some x" "log_event (RetryExhausted mx x) t"] by simp
    qed
  qed
qed

lemma retry_on_failure_db:
  assumes "\<And>s. db (snd (func s)) = db s"
  shows "db (snd (retry_on_failure mx d func s)) = db s"
  unfolding retry_on_failure_def using assms by (rule retry_loop_db)

lemma send_to_melhorenvio_db [simp]: "db (snd (send_to_melhorenvio e p s)) = db s"
  unfolding send_to_melhorenvio_def
  by (rule retry_on_failure_db)
     (auto simp: send_to_melhorenvio_attempt_def dest: http_send_dbD
        split: sum.splits prod.splits)

lemma bagy_mark_shipped_db [simp]: "db (snd (bagy_mark_shipped e oid tr s)) = db s"
  unfolding bagy_mark_shipped_def
  by (rule retry_on_failure_db)
     (auto simp: bagy_mark_shipped_attempt_def dest: http_send_dbD
        split: sum.splits prod.splits)

lemma bagy_mark_delivered_db [simp]: "db (snd (bagy_mark_delivered e oid s)) = db s"
  unfolding bagy_mark_delivered_def
  by (rule retry_on_failure_db)
     (auto simp: bagy_mark_delivered_attempt_def dest: http_send_dbD
        split: sum.splits prod.splits)

lemma check_delivered_db [simp]: "db (snd (melhorenvio_check_delivered e i s)) = db s"
  unfolding melhorenvio_check_delivered_def check_delivered_body_def
  by (auto dest: http_send_dbD split: sum.splits prod.splits)

lemma db_save_failed_db: "db_save e oid me tr st err s = (Inl x, t) \<Longrightarrow> db t = db s"
  by (drule db_save_failed) simp

text \<open>
  Claim C10. For an invoiced order with no stored record: when the carrier call has
  returned a shipment id and a tracking code and then the storefront call or the store
  write raises, the error write (which goes through) passes neither of them; the handler
  answers 500 and the only change to the table is a new row with status \<open>error\<close>, a null
  carrier shipment id, a null tracking code and the message of the exception.
\<close>

theorem error_path_drops_shipment:
  assumes "normalize_order_data pedido = Inr pn"
    and "dict_get pn ''id'' JNull = Inr oid" and "truthy oid"
    and "dict_get pn ''fulfillment_status'' (JStr []) = Inr (JStr ''invoiced'')"
    and "db_fault e (db_ops s) = None" and "sql_bind (lib e) oid = Inr (Some k)"
    and "find_row k (db s) = None"
    and "send_to_melhorenvio e pn (s\<lparr>db_ops := Suc (db_ops s)\<rparr>) = (Inr (me, tr), s1)"
    and "bagy_mark_shipped e oid tr s1 = (Inl x, s2)
         \<or> (\<exists>j u. bagy_mark_shipped e oid tr s1 = (Inr j, u)
                \<and> db_save e oid me tr ''shipped'' None u = (Inl x, s2))"
    and "db_fault e (db_ops s2) = None"
  shows "webhook_handler e pedido s
           = ((500, Failed (exc_msg x) oid),
              s2\<lparr>db_ops := Suc (db_ops s2),
                 db := db s @ [\<lparr>bagy_order_id = k, melhorenvio_order_id = None,
                                 tracking_code = None, status = ''error'',
                                 created_at = clock s2, updated_at = clock s2,
                                 delivered_at = None,
                                 retry_count = (if exc_msg x = [] then 0 else 1),
                                 last_error = Some (exc_msg x)\<rparr>]\<rparr>)"
proof -
  let ?s0 = "s\<lparr>db_ops := Suc (db_ops s)\<rparr>"
  have db1: "db s1 = db s"
    using send_to_melhorenvio_db[of e pn ?s0] assms(8) by simp
  have pipe: "pipeline e pn oid ?s0 = (Inl x, s2)" and db2: "db s2 = db s"
  proof -
    from assms(9) show "pipeline e pn oid ?s0 = (Inl x, s2)"
      unfolding pipeline_def by (auto simp: assms(8))
    from assms(9) show "db s2 = db s"
    proof
      assume a: "bagy_mark_shipped e oid tr s1 = (Inl x, s2)"
      show ?thesis using bagy_mark_shipped_db[of e oid tr s1] a db1 by simp
    next
      assume "\<exists>j u. bagy_mark_shipped e oid tr s1 = (Inr j, u)
                \<and> db_save e oid me tr ''shipped'' None u = (Inl x, s2)"
      then obtain j u where a: "bagy_mark_shipped e oid tr s1 = (Inr j, u)"
        and b: "db_save e oid me tr ''shipped'' None u = (Inl x, s2)" by blast
      have "db u = db s" using bagy_mark_shipped_db[of e oid tr s1] a db1 by simp
      with db_save_failed_db[OF b] show ?thesis by simp
    qed
  qed
  have none: "find_row k (db s2) = None" using assms(7) db2 by simp
  have save: "db_save e oid JNull JNull ''error'' (Some (exc_msg x)) s2
     = (Inr (),
        s2\<lparr>db_ops := Suc (db_ops s2),
           db := db s @ [\<lparr>bagy_order_id = k, melhorenvio_order_id = None,
                           tracking_code = None, status = ''error'',
                           created_at = clock s2, updated_at = clock s2,
                           delivered_at = None,
                           retry_count = (if exc_msg x = [] then 0 else 1),
                           last_error = Some (exc_msg x)\<rparr>]\<rparr>)"
    unfolding db_save_def Let_def
    by (simp add: assms(10) assms(6) assms(7) sql_upsert_def inserted_row_def truthy_str_def db2)
  have po: "process_order e pn oid ?s0
     = (Inr (500, Failed (exc_msg x) oid),
        s2\<lparr>db_ops := Suc (db_ops s2),
           db := db s @ [\<lparr>bagy_order_id = k, melhorenvio_order_id = None,
                           tracking_code = None, status = ''error'',
                           created_at = clock s2, updated_at = clock s2,
                           delivered_at = None,
                           retry_count = (if exc_msg x = [] then 0 else 1),
                           last_error = Some (exc_msg x)\<rparr>]\<rparr>)"
    unfolding process_order_def by (simp add: pipe save)
  show ?thesis
    unfolding webhook_handler_def handler_body_invoiced[OF assms(1-6)]
    by (simp add: assms(7) Let_def po)
qed

theorem error_path_drops_shipment_witness:
  "fst (webhook_handler (env0 net_carrier_ok_storefront_down) pedido_no_items (world_of []))
     = (500, Failed ''Erro Bagy shipped [HTTP 500]: boom'' (JStr ''A''))
   \<and> map (\<lambda>r. (status r, melhorenvio_order_id r, tracking_code r, retry_count r))
        (db (snd (webhook_handler (env0 net_carrier_ok_storefront_down) pedido_no_items
           (world_of []))))
     = [(''error'', None, None, 1)]
   \<and> fst (send_to_melhorenvio (env0 net_carrier_ok_storefront_down) pedido_no_items
        ((world_of [])\<lparr>db_ops := 1\<rparr>)) = Inr (JStr ''ME9'', JStr ''TR9'')"
proof -
  let ?e = "env0 net_carrier_ok_storefront_down"
  let ?w = "world_of []"
  let ?wa = "?w\<lparr>db_ops := Suc (db_ops ?w)\<rparr>"
  let ?wb = "snd (send_to_melhorenvio ?e pedido_no_items ?wa)"
  let ?wc = "snd (bagy_mark_shipped ?e (JStr ''A'') (JStr ''TR9'') ?wb)"
  let ?x = "Exc ''Exception'' ''Erro Bagy shipped [HTTP 500]: boom''"
  have n: "normalize_order_data pedido_no_items = Inr pedido_no_items" by code_simp
  have i: "dict_get pedido_no_items ''id'' JNull = Inr (JStr ''A'')" by code_simp
  have tr: "truthy (JStr ''A'')" by simp
  have f: "dict_get pedido_no_items ''fulfillment_status'' (JStr []) = Inr (JStr ''invoiced'')"
    by code_simp
  have b: "sql_bind (lib ?e) (JStr ''A'') = Inr (Some ''A'')" by simp
  have d0: "db_fault ?e (db_ops ?w) = None" by (simp add: env0_def)
  have r0: "find_row ''A'' (db ?w) = None" by code_simp
  have "fst (send_to_melhorenvio ?e pedido_no_items ?wa) = Inr (JStr ''ME9'', JStr ''TR9'')"
    by code_simp
  then have send: "send_to_melhorenvio ?e pedido_no_items ?wa = (Inr (JStr ''ME9'', JStr ''TR9''), ?wb)"
    by (simp add: prod_eq_iff)
  have "fst (bagy_mark_shipped ?e (JStr ''A'') (JStr ''TR9'') ?wb) = Inl ?x" by code_simp
  then have "bagy_mark_shipped ?e (JStr ''A'') (JStr ''TR9'') ?wb = (Inl ?x, ?wc)"
    by (simp add: prod_eq_iff)
  then have mark: "bagy_mark_shipped ?e (JStr ''A'') (JStr ''TR9'') ?wb = (Inl ?x, ?wc)
      \<or> (\<exists>j u. bagy_mark_shipped ?e (JStr ''A'') (JStr ''TR9'') ?wb = (Inr j, u)
             \<and> db_save ?e (JStr ''A'') (JStr ''ME9'') (JStr ''TR9'') ''shipped'' None u
                  = (Inl ?x, ?wc))"
    by (rule disjI1)
  have d2: "db_fault ?e (db_ops ?wc) = None" by (simp add: env0_def)
  note th = error_path_drops_shipment[OF n i tr f d0 b r0 send mark d2]
  have 1: "fst (webhook_handler ?e pedido_no_items ?w)
     = (500, Failed ''Erro Bagy shipped [HTTP 500]: boom'' (JStr ''A''))"
    unfolding th by simp
  have 2: "map (\<lambda>r. (status r, melhorenvio_order_id r, tracking_code r, retry_count r))
        (db (snd (webhook_handler ?e pedido_no_items ?w))) = [(''error'', None, None, 1)]"
    unfolding th by (simp add: world_of_def)
  have 3: "fst (send_to_melhorenvio ?e pedido_no_items (?w\<lparr>db_ops := 1\<rparr>))
             = Inr (JStr ''ME9'', JStr ''TR9'')"
    by code_simp
  from 1 2 3 show ?thesis by simp
qed


section \<open>The shipment request builder\<close>








lemma zero_plus_zero: "fadd (FloatNum False 0) (FloatNum False 0) = FloatNum False 0"
  by code_simp















lemma max_of_nan: "py_max2 FloatNaN b = FloatNaN"
  by (simp add: py_max2_def)

lemma nan_not_floored: "\<not> spec_floored_at lo FloatNaN w"
  by (cases lo) (simp_all add: spec_floored_at_def)




text \<open>
  Two further values of the builder. An item of 0.1 kg three times gives the weight
  0.30000000000000004, the product rounded to binary64; an integer total too large for a
  float makes the builder raise.
\<close>

lemma tenth_thrice_weight:
  "request_weights (build_request (env0 net_all_ok) pedido_tenth_thrice)
     = [float_lit (30000000000000004 / 100000000000000000)]
   \<and> float_lit (30000000000000004 / 100000000000000000) \<noteq> float_lit (3 / 10)"
  by code_simp

lemma huge_total_raises:
  "build_request (env0 net_all_ok) pedido_huge_total
     = Inl (Exc ''OverflowError'' ''int too large to convert to float'')"
  by code_simp


section \<open>The invariant of \<open>delivered_at\<close>\<close>

lemma find_row_of_mem:
  assumes "distinct (map bagy_order_id tbl)" "r \<in> set tbl"
  shows "find_row (bagy_order_id r) tbl = Some r"
proof -
  have "bagy_order_id r \<in> bagy_order_id ` set tbl" using assms(2) by simp
  then obtain r' where r': "find_row (bagy_order_id r) tbl = Some r'"
    using find_row_None[of "bagy_order_id r" tbl] by (cases "find_row (bagy_order_id r) tbl") auto
  from distinct_keys_row[OF assms(1) assms(2) r'] show ?thesis using r' by simp
qed

lemma upsert_keys:
  "map bagy_order_id (sql_upsert k me tr st rc err now tbl)
     = (case find_row k tbl of None \<Rightarrow> map bagy_order_id tbl @ [k]
        | Some _ \<Rightarrow> map bagy_order_id tbl)"
proof (cases "find_row k tbl")
  case None
  then show ?thesis by (simp add: sql_upsert_def inserted_row_def)
next
  case (Some r)
  have "map bagy_order_id (map (\<lambda>r. if bagy_order_id r = k
            then updated_row me tr st rc err now r else r) tbl) = map bagy_order_id tbl"
    by (induction tbl) auto
  with Some show ?thesis by (simp add: sql_upsert_def)
qed

lemma upsert_distinct:
  assumes "distinct (map bagy_order_id tbl)"
  shows "distinct (map bagy_order_id (sql_upsert k me tr st rc err now tbl))"
proof (cases "find_row k tbl")
  case None
  then have "k \<notin> bagy_order_id ` set tbl" by (simp add: find_row_None)
  with assms None show ?thesis by (simp add: upsert_keys)
next
  case (Some r)
  with assms show ?thesis by (simp add: upsert_keys)
qed

lemma upsert_mem:
  assumes "r' \<in> set (sql_upsert k me tr st rc err now tbl)"
  shows "(r' \<in> set tbl \<and> bagy_order_id r' \<noteq> k)
         \<or> (find_row k tbl = None \<and> r' = inserted_row k me tr st rc err now)
         \<or> (\<exists>r \<in> set tbl. bagy_order_id r = k \<and> r' = updated_row me tr st rc err now r)"
proof (cases "find_row k tbl")
  case None
  then have "k \<notin> bagy_order_id ` set tbl" by (simp add: find_row_None)
  with assms None show ?thesis by (auto simp: sql_upsert_def)
next
  case (Some r)
  with assms show ?thesis by (auto simp: sql_upsert_def split: if_splits)
qed

lemma row_inv_mem:
  "spec_delivered_at_inv tbl \<Longrightarrow> r \<in> set tbl
     \<Longrightarrow> (delivered_at r \<noteq> None) = (status r = ''delivered'')"
  by (simp add: spec_delivered_at_inv_def list_all_iff)

lemma upsert_rows_ok:
  assumes "rows_ok tbl" and "write_allowed k st tbl"
  shows "rows_ok (sql_upsert k me tr st rc err now tbl)"
proof -
  have d: "distinct (map bagy_order_id tbl)" and i: "spec_delivered_at_inv tbl"
    using assms(1) by (simp_all add: rows_ok_def)
  have "(delivered_at r' \<noteq> None) = (status r' = ''delivered'')"
    if m: "r' \<in> set (sql_upsert k me tr st rc err now tbl)" for r'
  proof -
    from upsert_mem[OF m] consider
      (old) "r' \<in> set tbl" |
      (new) "find_row k tbl = None" "r' = inserted_row k me tr st rc err now" |
      (upd) r where "r \<in> set tbl" "bagy_order_id r = k" "r' = updated_row me tr st rc err now r"
      by auto
    then show ?thesis
    proof cases
      case old
      then show ?thesis using i by (rule row_inv_mem[rotated])
    next
      case new
      then show ?thesis using assms(2) by (simp add: write_allowed_def inserted_row_def)
    next
      case upd
      have f: "find_row k tbl = Some r" using find_row_of_mem[OF d upd(1)] upd(2) by simp
      then have "status r \<noteq> ''delivered''" using assms(2) by (simp add: write_allowed_def)
      then have "delivered_at r = None" using row_inv_mem[OF i upd(1)] by simp
      then show ?thesis using upd(3) by (simp add: updated_row_def)
    qed
  qed
  then have "spec_delivered_at_inv (sql_upsert k me tr st rc err now tbl)"
    by (simp add: spec_delivered_at_inv_def list_all_iff)
  with upsert_distinct[OF d] show ?thesis by (simp add: rows_ok_def)
qed

lemma upsert_keeps_delivered:
  assumes "rows_ok tbl" and "write_allowed k st tbl"
    and "r \<in> set tbl" and "delivered_at r \<noteq> None"
  shows "r \<in> set (sql_upsert k me tr st rc err now tbl)"
proof -
  have d: "distinct (map bagy_order_id tbl)" and i: "spec_delivered_at_inv tbl"
    using assms(1) by (simp_all add: rows_ok_def)
  have del: "status r = ''delivered''" using row_inv_mem[OF i assms(3)] assms(4) by simp
  have ne: "bagy_order_id r \<noteq> k"
  proof
    assume "bagy_order_id r = k"
    then have "find_row k tbl = Some r" using find_row_of_mem[OF d assms(3)] by simp
    with assms(2) del show False by (simp add: write_allowed_def)
  qed
  show ?thesis
  proof (cases "find_row k tbl")
    case None
    then show ?thesis using assms(3) by (simp add: sql_upsert_def)
  next
    case (Some r0)
    have "r \<in> (\<lambda>r. if bagy_order_id r = k then updated_row me tr st rc err now r else r) ` set tbl"
      by (rule rev_image_eqI[OF assms(3)]) (simp add: ne)
    with Some show ?thesis by (simp add: sql_upsert_def)
  qed
qed

lemma upsert_pending_ok:
  assumes "pending_ok tbl pend" and "st \<noteq> ''delivered'' \<or> k \<notin> fst ` set pend"
  shows "pending_ok (sql_upsert k me tr st rc err now tbl) pend"
proof -
  have "case find_row (fst x) (sql_upsert k me tr st rc err now tbl) of
          Some r \<Rightarrow> status r \<noteq> ''delivered'' | None \<Rightarrow> False"
    if x: "x \<in> set pend" for x
  proof (cases "fst x = k")
    case True
    then have "st \<noteq> ''delivered''" using assms(2) x by auto
    then show ?thesis
      unfolding True find_row_upsert_same
      by (simp add: inserted_row_def updated_row_def split: option.splits)
  next
    case False
    have "case find_row (fst x) tbl of Some r \<Rightarrow> status r \<noteq> ''delivered'' | None \<Rightarrow> False"
      using assms(1) x by (simp add: pending_ok_def list_all_iff)
    then show ?thesis by (simp add: find_row_upsert_other[OF False])
  qed
  then show ?thesis using assms(1) by (simp add: pending_ok_def list_all_iff)
qed

lemma guarded_write_rows_ok:
  "rows_ok tbl \<Longrightarrow> guarded_write tbl tbl' pend \<Longrightarrow> rows_ok tbl'"
  unfolding guarded_write_def by (auto intro: upsert_rows_ok)

lemma guarded_write_pending_ok:
  "pending_ok tbl pend \<Longrightarrow> guarded_write tbl tbl' pend \<Longrightarrow> pending_ok tbl' pend"
  unfolding guarded_write_def by (auto intro: upsert_pending_ok)

lemma guarded_write_keeps_delivered:
  "rows_ok tbl \<Longrightarrow> guarded_write tbl tbl' pend \<Longrightarrow> r \<in> set tbl \<Longrightarrow> delivered_at r \<noteq> None
     \<Longrightarrow> r \<in> set tbl'"
  unfolding guarded_write_def by (auto intro: upsert_keeps_delivered)

subsection \<open>What each operation writes\<close>

lemma db_save_effect:
  assumes "db_save e oid me tr st err s = (r, t)"
  shows "(isl r \<and> db t = db s)
         \<or> (\<not> isl r \<and> (\<exists>k me' tr' rc. sql_bind (lib e) oid = Inr (Some k)
               \<and> db t = sql_upsert k me' tr' st rc err (clock s) (db s)))"
proof (cases r)
  case (Inl x)
  with assms have "db t = db s" by (simp add: db_save_failed_db)
  with Inl show ?thesis by simp
next
  case (Inr u)
  with assms have "db_save e oid me tr st err s = (Inr (), t)" by simp
  from db_save_ok[OF this] obtain k me' tr' where
    k: "sql_bind (lib e) oid = Inr (Some k)" and
    t: "t = s\<lparr>db_ops := Suc (db_ops s),
                 db := sql_upsert k me' tr' st
                         ((case find_row k (db s) of Some r \<Rightarrow> retry_count r | None \<Rightarrow> 0)
                            + (if truthy_str err then 1 else 0))
                         err (clock s) (db s)\<rparr>"
    by blast
  have "db t = sql_upsert k me' tr' st
                 ((case find_row k (db s) of Some r \<Rightarrow> retry_count r | None \<Rightarrow> 0)
                    + (if truthy_str err then 1 else 0)) err (clock s) (db s)"
    unfolding t by simp
  with k Inr show ?thesis by auto
qed

lemma lookup_status_effect:
  assumes "lookup_status e oid s = (r, t)"
  shows "db t = db s"
    and "r = Inr existing \<Longrightarrow> sql_bind (lib e) oid = Inr (Some k)
           \<Longrightarrow> existing = map_option status (find_row k (db s))"
  using assms unfolding lookup_status_def Let_def
  by (auto split: option.splits sum.splits)

lemma pipeline_effect:
  assumes "pipeline e pn oid s = (r, t)"
  shows "(isl r \<and> db t = db s)
         \<or> (\<not> isl r \<and> (\<exists>k me' tr' rc now. sql_bind (lib e) oid = Inr (Some k)
               \<and> db t = sql_upsert k me' tr' ''shipped'' rc None now (db s)))"
proof -
  obtain r1 s1 where a: "send_to_melhorenvio e pn s = (r1, s1)"
    by (cases "send_to_melhorenvio e pn s")
  have d1: "db s1 = db s" using send_to_melhorenvio_db[of e pn s] a by simp
  show ?thesis
  proof (cases r1)
    case (Inl x)
    with assms a d1 show ?thesis by (auto simp: pipeline_def)
  next
    case (Inr mt)
    obtain me tr where mt: "mt = (me, tr)" by (cases mt)
    obtain r2 s2 where b: "bagy_mark_shipped e oid tr s1 = (r2, s2)"
      by (cases "bagy_mark_shipped e oid tr s1")
    have d2: "db s2 = db s" using bagy_mark_shipped_db[of e oid tr s1] b d1 by simp
    show ?thesis
    proof (cases r2)
      case (Inl x)
      with assms a Inr mt b d2 show ?thesis by (auto simp: pipeline_def)
    next
      case (Inr j)
      obtain r3 s3 where c: "db_save e oid me tr ''shipped'' None s2 = (r3, s3)"
        by (cases "db_save e oid me tr ''shipped'' None s2")
      have rt: "t = s3" "isl r = isl r3"
        using assms a \<open>r1 = Inr mt\<close> mt b Inr c
        by (auto simp: pipeline_def split: sum.splits)
      from db_save_effect[OF c] show ?thesis
        unfolding rt d2 by blast
    qed
  qed
qed

lemma process_order_effect:
  assumes "process_order e pn oid s = (r, t)"
  shows "db t = db s
         \<or> (\<exists>k me' tr' st rc err now. sql_bind (lib e) oid = Inr (Some k)
               \<and> (st = ''shipped'' \<or> st = ''error'')
               \<and> db t = sql_upsert k me' tr' st rc err now (db s))"
proof -
  obtain r1 s1 where a: "pipeline e pn oid s = (r1, s1)" by (cases "pipeline e pn oid s")
  show ?thesis
  proof (cases r1)
    case (Inr mt)
    with assms a have t: "t = s1" by (auto simp: process_order_def split: prod.splits)
    from pipeline_effect[OF a] Inr
    obtain k me' tr' rc now where "sql_bind (lib e) oid = Inr (Some k)"
      "db s1 = sql_upsert k me' tr' ''shipped'' rc None now (db s)" by auto
    then show ?thesis unfolding t by blast
  next
    case (Inl x)
    with pipeline_effect[OF a] have d1: "db s1 = db s" by auto
    obtain r2 s2 where b: "db_save e oid JNull JNull ''error'' (Some (exc_msg x)) s1 = (r2, s2)"
      by (cases "db_save e oid JNull JNull ''error'' (Some (exc_msg x)) s1")
    have t: "t = s2" using assms a Inl b by (auto simp: process_order_def split: sum.splits)
    from db_save_effect[OF b] show ?thesis unfolding t d1 by blast
  qed
qed

lemma handler_body_cases:
  assumes "handler_body e p s = (r, t)"
  shows "db t = db s
         \<or> (\<exists>pn oid existing s0. lookup_status e oid s = (Inr existing, s0)
               \<and> existing \<noteq> Some ''shipped'' \<and> existing \<noteq> Some ''delivered''
               \<and> process_order e pn oid s0 = (r, t))"
proof (cases "normalize_order_data p")
  case (Inl x)
  with assms show ?thesis by (simp add: handler_body_def)
next
  case pn: (Inr pn)
  show ?thesis
  proof (cases "dict_get pn ''id'' JNull")
    case (Inl x)
    with assms pn show ?thesis by (simp add: handler_body_def)
  next
    case oid: (Inr oid)
    show ?thesis
    proof (cases "dict_get pn ''code'' JNull")
      case (Inl x)
      with assms pn oid show ?thesis by (simp add: handler_body_def)
    next
      case code: (Inr code)
      show ?thesis
      proof (cases "truthy oid")
        case False
        with assms pn oid code show ?thesis by (simp add: handler_body_def)
      next
        case tr: True
        show ?thesis
        proof (cases "dict_get pn ''fulfillment_status'' (JStr [])")
          case (Inl x)
          with assms pn oid code tr show ?thesis by (simp add: handler_body_def)
        next
          case fs: (Inr fs)
          show ?thesis
          proof (cases "fs = JStr ''invoiced''")
            case False
            with assms pn oid code tr fs show ?thesis by (simp add: handler_body_def)
          next
            case inv: True
            obtain r0 s0 where l: "lookup_status e oid s = (r0, s0)"
              by (cases "lookup_status e oid s")
            have d0: "db s0 = db s" using lookup_status_effect(1)[OF l] .
            show ?thesis
            proof (cases r0)
              case (Inl x)
              with assms pn oid code tr fs inv l d0 show ?thesis
                by (simp add: handler_body_def)
            next
              case ex: (Inr existing)
              show ?thesis
              proof (cases "existing = Some ''shipped'' \<or> existing = Some ''delivered''")
                case True
                with assms pn oid code tr fs inv l d0 ex show ?thesis
                  by (auto simp: handler_body_def)
              next
                case False
                with assms pn oid code tr fs inv l ex
                have "process_order e pn oid s0 = (r, t)" by (simp add: handler_body_def)
                with l ex False show ?thesis by blast
              qed
            qed
          qed
        qed
      qed
    qed
  qed
qed

lemma handler_effect:
  "guarded_write (db s) (db (snd (webhook_handler e p s))) pend"
proof -
  let ?t = "snd (webhook_handler e p s)"
  obtain r where hb: "handler_body e p s = (r, ?t)"
    unfolding webhook_handler_def
    by (cases "handler_body e p s") (auto split: sum.splits)
  from handler_body_cases[OF hb] show ?thesis
  proof
    assume "db ?t = db s"
    then show ?thesis by (simp add: guarded_write_def)
  next
    assume "\<exists>pn oid existing s0. lookup_status e oid s = (Inr existing, s0)
               \<and> existing \<noteq> Some ''shipped'' \<and> existing \<noteq> Some ''delivered''
               \<and> process_order e pn oid s0 = (r, ?t)"
    then obtain pn oid existing s0 where
      proc: "lookup_status e oid s = (Inr existing, s0)"
        "existing \<noteq> Some ''shipped''" "existing \<noteq> Some ''delivered''"
        "process_order e pn oid s0 = (r, ?t)" by blast
    have d0: "db s0 = db s" using lookup_status_effect(1)[OF proc(1)] .
    from process_order_effect[OF proc(4)] show ?thesis
    proof
      assume "db ?t = db s0"
      then show ?thesis using d0 by (simp add: guarded_write_def)
    next
      assume "\<exists>k me' tr' st rc err now. sql_bind (lib e) oid = Inr (Some k)
               \<and> (st = ''shipped'' \<or> st = ''error'')
               \<and> db ?t = sql_upsert k me' tr' st rc err now (db s0)"
      then obtain k me' tr' st rc err now where
        w: "sql_bind (lib e) oid = Inr (Some k)" "st = ''shipped'' \<or> st = ''error''"
          "db ?t = sql_upsert k me' tr' st rc err now (db s0)" by blast
      have ex: "existing = map_option status (find_row k (db s))"
        using lookup_status_effect(2)[OF proc(1) refl w(1)] .
      have wa: "write_allowed k st (db s)"
        using proc(2,3) w(2) unfolding ex write_allowed_def
        by (auto split: option.splits)
      have nd: "st \<noteq> ''delivered''" using w(2) by auto
      have "db ?t = sql_upsert k me' tr' st rc err now (db s)" using w(3) d0 by simp
      with wa nd show ?thesis unfolding guarded_write_def by blast
    qed
  qed
qed

lemma check_order_effect:
  assumes "check_order e x s = (r, t)"
  shows "(db t = db s)
         \<or> (\<not> isl r \<and> (\<exists>me tr rc now.
               db t = sql_upsert (fst x) me tr ''delivered'' rc None now (db s)))"
proof -
  obtain k me tr where x: "x = (k, me, tr)" by (cases x)
  show ?thesis
  proof (cases "truthy_str me")
    case False
    with assms x show ?thesis by (simp add: check_order_def)
  next
    case True
    obtain r1 s1 where a: "melhorenvio_check_delivered e (of_text me) s = (r1, s1)"
      by (cases "melhorenvio_check_delivered e (of_text me) s")
    have d1: "db s1 = db s" using check_delivered_db[of e "of_text me" s] a by simp
    show ?thesis
    proof (cases "r1 = Inr True")
      case False
      have "t = s1" using assms x True a False
        by (cases r1) (auto simp: check_order_def split: bool.splits)
      with d1 show ?thesis by simp
    next
      case yes: True
      obtain r2 s2 where b: "bagy_mark_delivered e (JStr k) s1 = (r2, s2)"
        by (cases "bagy_mark_delivered e (JStr k) s1")
      have d2: "db s2 = db s" using bagy_mark_delivered_db[of e "JStr k" s1] b d1 by simp
      show ?thesis
      proof (cases r2)
        case (Inl y)
        have "t = s2" using assms x True a yes b Inl by (simp add: check_order_def)
        with d2 show ?thesis by simp
      next
        case (Inr j)
        have c: "db_save e (JStr k) (of_text me) (of_text tr) ''delivered'' None s2 = (r, t)"
          using assms x True a yes b Inr by (simp add: check_order_def)
        from db_save_effect[OF c] show ?thesis
        proof
          assume "isl r \<and> db t = db s2"
          then show ?thesis using d2 by simp
        next
          assume "\<not> isl r \<and> (\<exists>k' me' tr' rc. sql_bind (lib e) (JStr k) = Inr (Some k')
               \<and> db t = sql_upsert k' me' tr' ''delivered'' rc None (clock s2) (db s2))"
          then obtain k' me' tr' rc where "\<not> isl r" "sql_bind (lib e) (JStr k) = Inr (Some k')"
            "db t = sql_upsert k' me' tr' ''delivered'' rc None (clock s2) (db s2)" by blast
          then have "\<not> isl r" "db t = sql_upsert (fst x) me' tr' ''delivered'' rc None (clock s2) (db s)"
            using d2 x by simp_all
          then show ?thesis by blast
        qed
      qed
    qed
  qed
qed

lemma scan_order_effect:
  assumes "scan_order e x s = (r, t)"
  shows "db t = db s
         \<or> (\<exists>me tr st rc err now. (st = ''delivered'' \<or> st = ''created'')
               \<and> db t = sql_upsert (fst x) me tr st rc err now (db s))"
proof -
  obtain k me tr where x: "x = (k, me, tr)" by (cases x)
  obtain r1 s1 where a: "check_order e x s = (r1, s1)" by (cases "check_order e x s")
  show ?thesis
  proof (cases r1)
    case (Inr u)
    have "t = s1" using assms a Inr by (simp add: scan_order_def)
    with check_order_effect[OF a] show ?thesis by blast
  next
    case (Inl y)
    with check_order_effect[OF a] have d1: "db s1 = db s" by auto
    have c: "db_save e (JStr k) (of_text me) (of_text tr) ''created'' (Some (exc_msg y)) s1 = (r, t)"
      using assms a Inl x by (simp add: scan_order_def)
    from db_save_effect[OF c] show ?thesis
    proof
      assume "isl r \<and> db t = db s1"
      then show ?thesis using d1 by simp
    next
      assume "\<not> isl r \<and> (\<exists>k' me' tr' rc. sql_bind (lib e) (JStr k) = Inr (Some k')
           \<and> db t = sql_upsert k' me' tr' ''created'' rc (Some (exc_msg y)) (clock s1) (db s1))"
      then obtain k' me' tr' rc where "sql_bind (lib e) (JStr k) = Inr (Some k')"
        "db t = sql_upsert k' me' tr' ''created'' rc (Some (exc_msg y)) (clock s1) (db s1)"
        by blast
      then have "db t = sql_upsert (fst x) me' tr' ''created'' rc (Some (exc_msg y)) (clock s1) (db s)"
        using d1 x by simp
      then show ?thesis by blast
    qed
  qed
qed

lemma pending_ok_Cons:
  assumes "pending_ok tbl (x # rest)"
  shows "pending_ok tbl rest" and "fst x \<notin> fst ` set rest"
    and "\<exists>r. find_row (fst x) tbl = Some r \<and> status r \<noteq> ''delivered''"
  using assms by (auto simp: pending_ok_def split: option.splits)

lemma scan_order_guarded:
  assumes "pending_ok (db s) (x # rest)" and "scan_order e x s = (r, t)"
  shows "guarded_write (db s) (db t) rest"
proof -
  from pending_ok_Cons[OF assms(1)] obtain r0 where
    nr: "fst x \<notin> fst ` set rest" and f: "find_row (fst x) (db s) = Some r0"
    and st: "status r0 \<noteq> ''delivered''" by blast
  have wa: "write_allowed (fst x) st' (db s)" for st'
    using f st by (simp add: write_allowed_def)
  from scan_order_effect[OF assms(2)] show ?thesis
  proof
    assume "db t = db s"
    then show ?thesis by (simp add: guarded_write_def)
  next
    assume "\<exists>me tr st rc err now. (st = ''delivered'' \<or> st = ''created'')
               \<and> db t = sql_upsert (fst x) me tr st rc err now (db s)"
    then obtain me tr st' rc err now where
      "db t = sql_upsert (fst x) me tr st' rc err now (db s)" by blast
    with wa[of st'] nr show ?thesis unfolding guarded_write_def by blast
  qed
qed

lemma db_pending_db: "db (snd (db_pending e s)) = db s"
  by (simp add: db_pending_def Let_def split: option.splits)

lemma db_pending_ok:
  assumes "rows_ok (db s)"
  shows "pending_ok (db s) (fst (db_pending e s))"
proof -
  have d: "distinct (map bagy_order_id (db s))" using assms by (simp add: rows_ok_def)
  let ?sel = "sort_key updated_at (filter (pending_row (cfg e)) (db s))"
  have "distinct (map bagy_order_id (filter (pending_row (cfg e)) (db s)))"
    using d by (rule distinct_map_filter)
  then have "distinct (filter (pending_row (cfg e)) (db s))"
    and inj: "inj_on bagy_order_id (set (filter (pending_row (cfg e)) (db s)))"
    by (simp_all add: distinct_map)
  then have ds: "distinct (map bagy_order_id ?sel)"
    by (simp add: distinct_map)
  have keys: "map fst (map (\<lambda>r. (bagy_order_id r, melhorenvio_order_id r, tracking_code r)) ?sel)
                = map bagy_order_id ?sel"
    by simp
  have rows: "case find_row (fst x) (db s) of Some r \<Rightarrow> status r \<noteq> ''delivered'' | None \<Rightarrow> False"
    if "x \<in> set (fst (db_pending e s))" for x
  proof -
    from pending_rows[OF that] obtain r where r: "r \<in> set (db s)" "pending_row (cfg e) r"
      "x = (bagy_order_id r, melhorenvio_order_id r, tracking_code r)" by blast
    have "find_row (fst x) (db s) = Some r" using find_row_of_mem[OF d r(1)] r(3) by simp
    moreover have "status r \<noteq> ''delivered''" using r(2) by (auto simp: pending_row_def)
    ultimately show ?thesis by simp
  qed
  have "distinct (map fst (fst (db_pending e s)))"
    unfolding db_pending_def Let_def using ds
    by (auto simp: comp_def split: option.splits)
  with rows show ?thesis by (simp add: pending_ok_def list_all_iff)
qed

lemma guarded_write_Nil:
  assumes "guarded_write tbl tbl' pend"
  shows "guarded_write tbl tbl' []"
proof -
  from assms consider "tbl' = tbl"
    | k me tr st rc err now where "write_allowed k st tbl"
        "tbl' = sql_upsert k me tr st rc err now tbl"
    unfolding guarded_write_def by blast
  then show ?thesis
  proof cases
    case 1
    then show ?thesis by (simp add: guarded_write_def)
  next
    case 2
    have "k \<notin> fst ` set []" by simp
    with 2 show ?thesis unfolding guarded_write_def by blast
  qed
qed

lemma pending_ok_Nil [simp]: "pending_ok tbl []"
  by (simp add: pending_ok_def)

subsection \<open>Steps of the worker and uninterrupted events\<close>

text \<open>Every step is a guarded write with respect to the orders the worker will still check.\<close>

lemma worker_step_guarded:
  assumes "sys_inv (pc, s)" and "worker_step e (pc, s) = (pc', s')"
  shows "guarded_write (db s) (db s') (case pc' of InScan pend \<Rightarrow> pend | _ \<Rightarrow> [])"
    and "case pc' of InScan pend \<Rightarrow> pending_ok (db s) pend | _ \<Rightarrow> True"
proof -
  have ro: "rows_ok (db s)" using assms(1) by (simp add: sys_inv_def)
  have both: "guarded_write (db s) (db s') (case pc' of InScan pend \<Rightarrow> pend | _ \<Rightarrow> [])
     \<and> (case pc' of InScan pend \<Rightarrow> pending_ok (db s) pend | _ \<Rightarrow> True)"
  proof (cases pc)
    case AtFetch
    obtain pend t where p: "db_pending e s = (pend, t)" by (cases "db_pending e s")
    have "db t = db s" using db_pending_db[of e s] p by simp
    moreover have "pending_ok (db s) pend" using db_pending_ok[OF ro, of e] p by simp
    moreover have "pc' = InScan pend" "s' = t" using assms(2) AtFetch p by simp_all
    ultimately show ?thesis by (simp add: guarded_write_def)
  next
    case (Stopped x)
    with assms(2) show ?thesis by (auto simp: guarded_write_def)
  next
    case (InScan pend)
    show ?thesis
    proof (cases pend)
      case Nil
      with assms(2) InScan have "db s' = db s" "pc' = AtFetch \<or> (\<exists>x. pc' = Stopped x)"
        by (auto simp: sleep_def split: if_splits)
      then show ?thesis by (auto simp: guarded_write_def)
    next
      case (Cons x rest)
      have po: "pending_ok (db s) (x # rest)" using assms(1) InScan Cons by (simp add: sys_inv_def)
      obtain r t where sc: "scan_order e x s = (r, t)" by (cases "scan_order e x s")
      have gw: "guarded_write (db s) (db t) rest" using scan_order_guarded[OF po sc] .
      have gw0: "guarded_write (db s) (db t) []"
        using gw by (rule guarded_write_Nil)
      have next_pc: "db s' = db t \<and> (pc' = InScan rest \<or> pc' = InScan [])"
        using assms(2) InScan Cons sc
        by (cases r) (auto simp: sleep_def split: if_splits)
      then show ?thesis using gw gw0 pending_ok_Cons(1)[OF po] by auto
    qed
  qed
  from both show "guarded_write (db s) (db s') (case pc' of InScan pend \<Rightarrow> pend | _ \<Rightarrow> [])"
    and "case pc' of InScan pend \<Rightarrow> pending_ok (db s) pend | _ \<Rightarrow> True" by simp_all
qed

lemma atomic_step_guarded:
  assumes "sys_inv st" and "atomic_step e st a = st'"
  shows "guarded_write (db (snd st)) (db (snd st'))
           (case fst st' of InScan pend \<Rightarrow> pend | _ \<Rightarrow> [])"
    and "case fst st' of InScan pend \<Rightarrow> pending_ok (db (snd st)) pend | _ \<Rightarrow> True"
proof -
  obtain pc s where st: "st = (pc, s)" by (cases st)
  obtain pc' s' where st': "st' = (pc', s')" by (cases st')
  have "guarded_write (db s) (db s') (case pc' of InScan pend \<Rightarrow> pend | _ \<Rightarrow> [])
     \<and> (case pc' of InScan pend \<Rightarrow> pending_ok (db s) pend | _ \<Rightarrow> True)"
  proof (cases a)
    case Work
    then have "worker_step e (pc, s) = (pc', s')" using assms(2) st st' by simp
    from worker_step_guarded[OF assms(1)[unfolded st] this] show ?thesis by simp
  next
    case (Event p)
    then have e: "pc' = pc" "s' = snd (webhook_handler e p s)" using assms(2) st st' by auto
    have "guarded_write (db s) (db s') (case pc' of InScan pend \<Rightarrow> pend | _ \<Rightarrow> [])"
      unfolding e by (rule handler_effect)
    moreover have "case pc' of InScan pend \<Rightarrow> pending_ok (db s) pend | _ \<Rightarrow> True"
      using assms(1) st e by (auto simp: sys_inv_def split: worker_pc.splits)
    ultimately show ?thesis by simp
  qed
  then show "guarded_write (db (snd st)) (db (snd st'))
           (case fst st' of InScan pend \<Rightarrow> pend | _ \<Rightarrow> [])"
    and "case fst st' of InScan pend \<Rightarrow> pending_ok (db (snd st)) pend | _ \<Rightarrow> True"
    unfolding st st' fst_conv snd_conv by simp_all
qed

lemma atomic_step_inv:
  assumes "sys_inv st"
  shows "sys_inv (atomic_step e st a)"
proof -
  note g = atomic_step_guarded[OF assms refl, of e a]
  have ro: "rows_ok (db (snd st))" using assms by (simp add: sys_inv_def)
  have "rows_ok (db (snd (atomic_step e st a)))"
    using guarded_write_rows_ok[OF ro g(1)] .
  moreover have "case fst (atomic_step e st a) of
                   InScan pend \<Rightarrow> pending_ok (db (snd (atomic_step e st a))) pend | _ \<Rightarrow> True"
    using g by (auto split: worker_pc.splits intro: guarded_write_pending_ok)
  ultimately show ?thesis by (simp add: sys_inv_def)
qed

lemma atomic_step_keeps_delivered:
  assumes "sys_inv st" and "r \<in> set (db (snd st))" and "delivered_at r \<noteq> None"
  shows "r \<in> set (db (snd (atomic_step e st a)))"
proof -
  have ro: "rows_ok (db (snd st))" using assms(1) by (simp add: sys_inv_def)
  from guarded_write_keeps_delivered[OF ro atomic_step_guarded(1)[OF assms(1) refl] assms(2,3)]
  show ?thesis .
qed

lemma atomic_run_append: "atomic_run e (acts @ later) st = atomic_run e later (atomic_run e acts st)"
  by (simp add: atomic_run_def)

lemma atomic_run_inv: "sys_inv st \<Longrightarrow> sys_inv (atomic_run e acts st)"
  unfolding atomic_run_def by (induction acts arbitrary: st) (simp_all add: atomic_step_inv)

lemma atomic_run_keeps_delivered:
  "sys_inv st \<Longrightarrow> r \<in> set (db (snd st)) \<Longrightarrow> delivered_at r \<noteq> None
     \<Longrightarrow> r \<in> set (db (snd (atomic_run e acts st)))"
proof (induction acts arbitrary: st)
  case Nil
  then show ?case by (simp add: atomic_run_def)
next
  case (Cons a acts)
  have "r \<in> set (db (snd (atomic_run e acts (atomic_step e st a))))"
    using Cons.prems
    by (intro Cons.IH atomic_step_inv atomic_step_keeps_delivered)
  then show ?case by (simp add: atomic_run_def)
qed

lemma initial_inv: "sys_inv (AtFetch, initial_world)"
  by (simp add: sys_inv_def initial_world_def rows_ok_def spec_delivered_at_inv_def)

text \<open>
  When no other step falls between the guard of an event and the rest of its handler, the
  two steps together are the whole handler.
\<close>

lemma handler_body_guard:
  "handler_body e p s =
     (case handler_guard e p s of
        (Raised x, t) \<Rightarrow> (Inl x, t)
      | (Answered r, t) \<Rightarrow> (Inr r, t)
      | (Passed pn oid, t) \<Rightarrow> process_order e pn oid t)"
  unfolding handler_body_def handler_guard_def
  by (simp split: sum.splits prod.splits)

lemma arrive_resume:
  "sys_step e (sys_step e (pc, [], s) (Arrive p)) (Resume 0)
     = (pc, [], snd (webhook_handler e p s))"
proof -
  obtain g t where g: "handler_guard e p s = (g, t)" by (cases "handler_guard e p s")
  show ?thesis
  proof (cases g)
    case (Raised x)
    with g show ?thesis by (simp add: webhook_handler_def handler_body_guard)
  next
    case (Answered r)
    with g show ?thesis by (simp add: webhook_handler_def handler_body_guard)
  next
    case (Passed pn oid)
    obtain r u where u: "process_order e pn oid t = (r, u)" by (cases "process_order e pn oid t")
    with g Passed show ?thesis
      by (cases r) (simp_all add: webhook_handler_def handler_body_guard)
  qed
qed

lemma run_expand:
  "run e (concat (map expand acts)) (pc, [], s)
     = (fst (atomic_run e acts (pc, s)), [], snd (atomic_run e acts (pc, s)))"
proof (induction acts arbitrary: pc s)
  case Nil
  then show ?case by (simp add: run_def atomic_run_def)
next
  case (Cons a acts)
  obtain pc' s' where st: "atomic_step e (pc, s) a = (pc', s')"
    by (cases "atomic_step e (pc, s) a")
  have one: "foldl (sys_step e) (pc, [], s) (expand a) = (pc', [], s')"
  proof (cases a)
    case (Event p)
    with st arrive_resume[of e pc s p] show ?thesis by simp
  next
    case Work
    with st show ?thesis by simp
  qed
  have "run e (concat (map expand (a # acts))) (pc, [], s)
          = run e (concat (map expand acts)) (pc', [], s')"
    by (simp add: run_def one)
  also have "\<dots> = (fst (atomic_run e acts (pc', s')), [], snd (atomic_run e acts (pc', s')))"
    by (rule Cons.IH)
  finally show ?case by (simp add: atomic_run_def st)
qed

text \<open>
  In such schedules the invariant of the specification holds in every state, and a row
  whose \<open>delivered_at\<close> is set stays in the table unchanged.
\<close>

lemma uninterrupted_events_keep_invariant:
  "spec_delivered_at_inv (db (snd (snd (run e (concat (map expand acts)) initial))))
   \<and> (\<forall>r \<in> set (db (snd (snd (run e (concat (map expand acts)) initial)))).
        delivered_at r \<noteq> None
        \<longrightarrow> r \<in> set (db (snd (snd (run e (concat (map expand (acts @ later))) initial)))))"
proof
  have i: "sys_inv (atomic_run e acts (AtFetch, initial_world))"
    using initial_inv by (rule atomic_run_inv)
  then show "spec_delivered_at_inv (db (snd (snd (run e (concat (map expand acts)) initial))))"
    by (simp add: initial_def run_expand sys_inv_def rows_ok_def)
  show "\<forall>r \<in> set (db (snd (snd (run e (concat (map expand acts)) initial)))).
        delivered_at r \<noteq> None
        \<longrightarrow> r \<in> set (db (snd (snd (run e (concat (map expand (acts @ later))) initial))))"
    unfolding initial_def run_expand snd_conv atomic_run_append
    using atomic_run_keeps_delivered[OF i] by blast
qed

text \<open>
  Claim C9. The invariant fails in the running system. Two events for the same new order
  arrive one after the other, and both handlers pass the guard before either has written.
  The first handler records the order as shipped; the worker finds the shipment delivered
  and records the delivery at time 0; then the second handler, which passed the guard
  when the order had no row, records the order as shipped again. The row now has
  \<open>delivered_at\<close> set and the status \<open>shipped\<close>, and the next scan of the worker, which
  selects it again, overwrites \<open>delivered_at\<close> with the time 602.
\<close>

theorem delivered_at_race:
  "delivery_columns (run (env0 net_all_ok)
       [Arrive pedido_no_items, Arrive pedido_no_items, Resume 0, Tick, Tick] initial)
     = [(''A'', ''delivered'', Some 0)]
   \<and> delivery_columns (run (env0 net_all_ok)
       [Arrive pedido_no_items, Arrive pedido_no_items, Resume 0, Tick, Tick, Resume 0] initial)
     = [(''A'', ''shipped'', Some 0)]
   \<and> \<not> spec_delivered_at_inv (db (snd (snd (run (env0 net_all_ok)
       [Arrive pedido_no_items, Arrive pedido_no_items, Resume 0, Tick, Tick, Resume 0] initial))))
   \<and> delivery_columns (run (env0 net_all_ok)
       [Arrive pedido_no_items, Arrive pedido_no_items, Resume 0, Tick, Tick, Resume 0,
        Tick, Tick, Tick] initial)
     = [(''A'', ''delivered'', Some 602)]"
  by code_simp

section \<open>An error during a reconciliation check\<close>

text \<open>
  Claim C1, at a concrete scan. Two orders are stored with status \<open>shipped\<close>; the carrier
  reports each delivered and the storefront refuses every mark-delivered call. After the
  scan both rows carry the error message and a retry count of 1, the second order having
  been checked after the first failed, and both have status \<open>created\<close>: the error write
  of the loop passes no status, so \<open>db_save\<close> stores its default.
\<close>

theorem reconciliation_error_resets_status:
  "map status [row_shipped, row_shipped_b] = [''shipped'', ''shipped'']
   \<and> map (\<lambda>r. (bagy_order_id r, status r, retry_count r, last_error r))
        (db (snd (worker_steps (env0 net_delivered_but_storefront_down) 3
           (AtFetch, world_of [row_shipped, row_shipped_b]))))
     = [(''A'', ''created'', 1, Some ''Erro Bagy delivered [HTTP 500]: boom''),
        (''B'', ''created'', 1, Some ''Erro Bagy delivered [HTTP 500]: boom'')]"
  by code_simp

end
